theory Spec2Isabelle
  imports Main "HOL-Library.Word"
begin

section \<open>The node handle of pkg/cluster/nodes/node.go\<close>

text \<open>
  A shallow embedding of \<^verbatim>\<open>pkg/cluster/nodes/node.go\<close>. The node handle talks to two
  external collaborators, the docker package and the exec package. Neither is part of the
  file: every call into them is a \<open>request\<close>, answered by a \<open>runtime\<close> that is a parameter
  of every operation, and recorded in the order of issue. Go's result pairs
  \<^verbatim>\<open>(value, err)\<close> are pairs whose second component is an \<open>error option\<close>,
  \<open>None\<close> being \<^verbatim>\<open>nil\<close>.
\<close>

subsection \<open>Errors and formatted text\<close>

text \<open>
  The arguments of a format string stay symbolic: \<^verbatim>\<open>fmt.Sprintf(f, a, b)\<close> is
  \<open>Sprintf f [a, b]\<close>, and the error constructors of github.com/pkg/errors keep the
  format and its arguments side by side.
\<close>

datatype arg = AInt int | AStr string

datatype ftext = Lit string | Sprintf string "arg list"

datatype numerr = ErrSyntax | ErrRange

datatype error =
    External string
  | NumError string string numerr
  | Wrap error string
  | Wrapf error string "arg list"
  | Errorf string "arg list"

text \<open>\<^verbatim>\<open>errors.Wrap\<close> and \<^verbatim>\<open>errors.Wrapf\<close> return nil for a nil error.\<close>

definition errors_Wrap :: "error option \<Rightarrow> string \<Rightarrow> error option" where
  "errors_Wrap err message = (case err of None \<Rightarrow> None | Some e \<Rightarrow> Some (Wrap e message))"

definition errors_Wrapf :: "error option \<Rightarrow> string \<Rightarrow> arg list \<Rightarrow> error option" where
  "errors_Wrapf err format args =
     (case err of None \<Rightarrow> None | Some e \<Rightarrow> Some (Wrapf e format args))"

definition errors_Errorf :: "string \<Rightarrow> arg list \<Rightarrow> error option" where
  "errors_Errorf format args = Some (Errorf format args)"

subsection \<open>The external collaborators\<close>

text \<open>
  \<open>Cmd target command args stdin\<close> is the \<^verbatim>\<open>exec.Cmd\<close> that
  \<^verbatim>\<open>docker.ContainerCmder(target).Command(command, args...)\<close> builds, with the
  standard input set by \<^verbatim>\<open>SetStdin\<close> (\<open>None\<close> when it was never set).
\<close>

datatype cmd = Cmd string string "string list" "string option"

fun SetStdin :: "cmd \<Rightarrow> string \<Rightarrow> cmd" where
  "SetStdin (Cmd target command args _) r = Cmd target command args (Some r)"

datatype request =
    exec_CombinedOutputLines cmd
  | exec_RunLoggingOutputOnFail cmd
  | cmd_Run cmd
  | docker_Inspect string ftext
  | docker_CopyTo string string string
  | docker_CopyFrom string string string

text \<open>
  The runtime answers a request with lines of output and an error; the answer may depend
  on the requests issued before, so that a retry can be answered differently. Calls that
  return only an error in Go ignore the lines.
\<close>

type_synonym runtime = "request list \<Rightarrow> request \<Rightarrow> string list \<times> error option"

subsection \<open>The metadata cache\<close>

type_synonym int32 = "32 word"

text \<open>The \<open>ports\<close> map is \<open>None\<close> while it is nil. The mutex is not a field: a call
  holds it only while it reads the cache and while it writes to it, and the steps between
  which other calls may run are those of \<open>step\<close> below.\<close>

record nodeCache =
  kubernetesVersion :: string
  ip :: string
  ports :: "(int32 \<rightharpoonup> int32) option"
  role :: string

record Node =
  name :: string

text \<open>The state an operation runs in: the cache the handle points to, and the requests
  issued to the runtime so far.\<close>

record world =
  cache :: nodeCache
  issued :: "request list"

definition call :: "runtime \<Rightarrow> request \<Rightarrow> world \<Rightarrow> (string list \<times> error option) \<times> world" where
  "call rt req w = (rt (issued w) req, w\<lparr>issued := issued w @ [req]\<rparr>)"

definition nodeCache_set :: "(nodeCache \<Rightarrow> nodeCache) \<Rightarrow> world \<Rightarrow> world" where
  "nodeCache_set setter w = w\<lparr>cache := setter (cache w)\<rparr>"

definition nodeCache_KubeVersion :: "nodeCache \<Rightarrow> string" where
  "nodeCache_KubeVersion c = kubernetesVersion c"

definition nodeCache_IP :: "nodeCache \<Rightarrow> string" where
  "nodeCache_IP c = ip c"

definition nodeCache_HostPort :: "nodeCache \<Rightarrow> int32 \<Rightarrow> int32 \<times> bool" where
  "nodeCache_HostPort c p =
     (case ports c of
        None \<Rightarrow> (0, False)
      | Some m \<Rightarrow> (case m p of None \<Rightarrow> (0, False) | Some v \<Rightarrow> (v, True)))"

definition nodeCache_Role :: "nodeCache \<Rightarrow> string" where
  "nodeCache_Role c = role c"

definition Node_Command :: "Node \<Rightarrow> string \<Rightarrow> string list \<Rightarrow> cmd" where
  "Node_Command n command args = Cmd (name n) command args None"

subsection \<open>Library functions the file calls\<close>

text \<open>\<^verbatim>\<open>strings.Trim(s, cutset)\<close>, for a cutset of ASCII characters: the leading and
  the trailing characters of the cutset are removed.\<close>

definition strings_Trim :: "string \<Rightarrow> string \<Rightarrow> string" where
  "strings_Trim s cutset =
     rev (dropWhile (\<lambda>c. c \<in> set cutset) (rev (dropWhile (\<lambda>c. c \<in> set cutset) s)))"

text \<open>\<^verbatim>\<open>strings.ToLower\<close> on ASCII text: the letters A to Z move to a to z.\<close>

definition toLower_char :: "char \<Rightarrow> char" where
  "toLower_char c =
     (let k = (of_char c :: nat) in if 65 \<le> k \<and> k \<le> 90 then char_of (k + 32) else c)"

definition strings_ToLower :: "string \<Rightarrow> string" where
  "strings_ToLower s = map toLower_char s"

text \<open>
  \<^verbatim>\<open>strconv.ParseUint(s, 10, bitSize)\<close> and \<^verbatim>\<open>strconv.ParseInt(s, 10, bitSize)\<close>
  for \<open>0 < bitSize \<le> 64\<close>. The accumulator is a uint64: the wrap-around of
  \<^verbatim>\<open>n * 10\<close> and \<^verbatim>\<open>n + d\<close> is written out. \<open>parseUint_loop\<close> is the loop over the
  bytes of the text; it returns the value and the kind of failure, if any.
\<close>

fun parseUint_loop :: "int \<Rightarrow> int \<Rightarrow> string \<Rightarrow> int \<times> numerr option" where
  "parseUint_loop maxVal n [] = (n, None)"
| "parseUint_loop maxVal n (c # cs) =
     (let k = (of_char c :: int) in
      if \<not> (48 \<le> k \<and> k \<le> 57) then (0, Some ErrSyntax)
      else
        let d = k - 48 in
        if n \<ge> (2 ^ 64 - 1) div 10 + 1 then (maxVal, Some ErrRange)
        else
          let n' = (n * 10) mod 2 ^ 64;
              n1 = (n' + d) mod 2 ^ 64 in
          if n1 < n' \<or> n1 > maxVal then (maxVal, Some ErrRange)
          else parseUint_loop maxVal n1 cs)"

definition strconv_ParseUint :: "string \<Rightarrow> nat \<Rightarrow> int \<times> numerr option" where
  "strconv_ParseUint s bitSize =
     (if s = [] then (0, Some ErrSyntax) else parseUint_loop (2 ^ bitSize - 1) 0 s)"

definition strconv_ParseInt :: "string \<Rightarrow> nat \<Rightarrow> int \<times> error option" where
  "strconv_ParseInt s0 bitSize =
     (if s0 = [] then (0, Some (NumError ''ParseInt'' s0 ErrSyntax))
      else
        let neg = (hd s0 = CHR ''-'');
            s = (if hd s0 = CHR ''+'' \<or> hd s0 = CHR ''-'' then tl s0 else s0);
            (un, err) = strconv_ParseUint s bitSize;
            cutoff = (2::int) ^ (bitSize - 1) in
        if err = Some ErrSyntax then (0, Some (NumError ''ParseInt'' s0 ErrSyntax))
        else if \<not> neg \<and> un \<ge> cutoff then (cutoff - 1, Some (NumError ''ParseInt'' s0 ErrRange))
        else if neg \<and> un > cutoff then (- cutoff, Some (NumError ''ParseInt'' s0 ErrRange))
        else (if neg then - un else un, None))"

text \<open>
  \<^verbatim>\<open>filepath.Clean\<close> and \<^verbatim>\<open>filepath.Dir\<close> on a system whose separator is the slash
  and whose paths have no volume name. \<open>clean_loop\<close> is the loop of \<^verbatim>\<open>Clean\<close>: the
  output buffer \<open>out\<close> holds the bytes written so far (its length is the write index),
  \<open>dotdot\<close> is the index where \<^verbatim>\<open>..\<close> must stop, and the last argument is the part
  of the path still to be read. \<open>backtrack\<close> is the inner loop that removes the last
  element of the buffer.
\<close>

fun backtrack :: "string \<Rightarrow> nat \<Rightarrow> nat \<Rightarrow> nat" where
  "backtrack out dotdot 0 = 0"
| "backtrack out dotdot (Suc k) =
     (if Suc k > dotdot \<and> out ! Suc k \<noteq> CHR ''/'' then backtrack out dotdot k else Suc k)"

function clean_loop :: "bool \<Rightarrow> string \<Rightarrow> nat \<Rightarrow> string \<Rightarrow> string" where
  "clean_loop rooted out dotdot [] = out"
| "clean_loop rooted out dotdot (c # cs) =
     (if c = CHR ''/'' then clean_loop rooted out dotdot cs
      else if c = CHR ''.'' \<and> (cs = [] \<or> hd cs = CHR ''/'') then clean_loop rooted out dotdot cs
      else if c = CHR ''.'' \<and> hd cs = CHR ''.'' \<and> (tl cs = [] \<or> hd (tl cs) = CHR ''/'') then
        (if length out > dotdot then
           clean_loop rooted (take (backtrack out dotdot (length out - 1)) out) dotdot (tl cs)
         else if \<not> rooted then
           (let out' = (if length out > 0 then out @ ''/'' else out) @ ''..''
            in clean_loop rooted out' (length out') (tl cs))
         else clean_loop rooted out dotdot (tl cs))
      else
        (let out' = (if rooted \<and> length out \<noteq> 1 \<or> \<not> rooted \<and> length out \<noteq> 0
                     then out @ ''/'' else out)
         in clean_loop rooted (out' @ takeWhile (\<lambda>x. x \<noteq> CHR ''/'') (c # cs)) dotdot
              (dropWhile (\<lambda>x. x \<noteq> CHR ''/'') (c # cs))))"
  by pat_completeness auto
termination
proof (relation "measure (\<lambda>(rooted, out, dotdot, rest). length rest)")
  show "wf (measure (\<lambda>(rooted, out, dotdot, rest). length rest))" by simp
next
  fix rooted :: bool and out :: string and dotdot :: nat and c :: char and cs :: string
    and out' :: string
  assume "c \<noteq> CHR ''/''"
  then have "length (dropWhile (\<lambda>x. x \<noteq> CHR ''/'') (c # cs)) \<le> length cs"
    by (simp add: length_dropWhile_le)
  then show "((rooted, out' @ takeWhile (\<lambda>x. x \<noteq> CHR ''/'') (c # cs), dotdot,
               dropWhile (\<lambda>x. x \<noteq> CHR ''/'') (c # cs)), rooted, out, dotdot, c # cs)
             \<in> measure (\<lambda>(rooted, out, dotdot, rest). length rest)"
    by simp
qed (auto simp: less_Suc_eq_le)

definition filepath_Clean :: "string \<Rightarrow> string" where
  "filepath_Clean path =
     (if path = [] then ''.''
      else
        let rooted = (hd path = CHR ''/'');
            out = (if rooted then clean_loop True ''/'' 1 (tl path)
                   else clean_loop False [] 0 path)
        in if out = [] then ''.'' else out)"

definition filepath_Dir :: "string \<Rightarrow> string" where
  "filepath_Dir path = filepath_Clean (rev (dropWhile (\<lambda>x. x \<noteq> CHR ''/'') (rev path)))"

subsection \<open>The operations of the node handle\<close>

definition Node_CopyTo :: "runtime \<Rightarrow> Node \<Rightarrow> string \<Rightarrow> string \<Rightarrow> world \<Rightarrow> error option \<times> world" where
  "Node_CopyTo rt n source dest w =
     (let ((lines, err), w1) = call rt (docker_CopyTo source (name n) dest) w in (err, w1))"

definition Node_CopyFrom :: "runtime \<Rightarrow> Node \<Rightarrow> string \<Rightarrow> string \<Rightarrow> world \<Rightarrow> error option \<times> world" where
  "Node_CopyFrom rt n source dest w =
     (let ((lines, err), w1) = call rt (docker_CopyFrom (name n) source dest) w in (err, w1))"

definition Node_KubeVersion :: "runtime \<Rightarrow> Node \<Rightarrow> world \<Rightarrow> (string \<times> error option) \<times> world" where
  "Node_KubeVersion rt n w =
     (let cachedVersion = nodeCache_KubeVersion (cache w) in
      if cachedVersion \<noteq> [] then ((cachedVersion, None), w)
      else
        let cmd = Node_Command n ''cat'' [''/kind/version''];
            ((lines, err), w1) = call rt (exec_CombinedOutputLines cmd) w in
        if err \<noteq> None then (([], errors_Wrap err ''failed to get file''), w1)
        else if length lines \<noteq> 1 then
          (([], errors_Errorf ''file should only be one line, got %d lines''
                  [AInt (int (length lines))]), w1)
        else
          let version = lines ! 0 in
          ((version, None), nodeCache_set (\<lambda>c. c\<lparr>kubernetesVersion := version\<rparr>) w1))"

definition Node_IP :: "runtime \<Rightarrow> Node \<Rightarrow> world \<Rightarrow> (string \<times> error option) \<times> world" where
  "Node_IP rt n w =
     (let cachedIP = nodeCache_IP (cache w) in
      if cachedIP \<noteq> [] then ((cachedIP, None), w)
      else
        let ((lines, err), w1) =
              call rt (docker_Inspect (name n)
                (Lit ''{{range .NetworkSettings.Networks}}{{.IPAddress}}{{end}}'')) w in
        if err \<noteq> None then (([], errors_Wrap err ''failed to get file''), w1)
        else if length lines \<noteq> 1 then
          (([], errors_Errorf ''file should only be one line, got %d lines''
                  [AInt (int (length lines))]), w1)
        else
          let ip' = lines ! 0 in
          ((ip', None), nodeCache_set (\<lambda>c. c\<lparr>ip := ip'\<rparr>) w1))"

text \<open>The template of the port query; \<open>CHR 0x22\<close> is the double quote around
  \<^verbatim>\<open>%d/tcp\<close>.\<close>

definition portTemplate :: string where
  "portTemplate =
     ''{{(index (index .NetworkSettings.Ports '' @ [CHR 0x22] @ ''%d/tcp'' @ [CHR 0x22] @
     '') 0).HostPort}}''"

definition Node_Ports :: "runtime \<Rightarrow> Node \<Rightarrow> int32 \<Rightarrow> world \<Rightarrow> (int32 \<times> error option) \<times> world" where
  "Node_Ports rt n containerPort w =
     (let (hostPort, isCached) = nodeCache_HostPort (cache w) containerPort in
      if isCached then ((hostPort, None), w)
      else
        let ((lines, err), w1) =
              call rt (docker_Inspect (name n)
                (Sprintf portTemplate [AInt (sint containerPort)])) w in
        if err \<noteq> None then ((- 1, errors_Wrap err ''failed to get file''), w1)
        else if length lines \<noteq> 1 then
          ((- 1, errors_Errorf ''file should only be one line, got %d lines''
                   [AInt (int (length lines))]), w1)
        else
          let (parsed, err') = strconv_ParseInt (lines ! 0) 32 in
          if err' \<noteq> None then ((- 1, errors_Wrap err' ''failed to get file''), w1)
          else
            let hostPort' = (word_of_int parsed :: int32) in
            ((hostPort', None),
             nodeCache_set (\<lambda>c. c\<lparr>ports :=
                 Some ((case ports c of None \<Rightarrow> Map.empty | Some m \<Rightarrow> m)
                        (containerPort \<mapsto> hostPort'))\<rparr>) w1))"

text \<open>\<^verbatim>\<open>constants.NodeRoleKey\<close> is declared in another package; it is the first
  parameter of \<open>Node_Role\<close>.\<close>

definition Node_Role :: "string \<Rightarrow> runtime \<Rightarrow> Node \<Rightarrow> world \<Rightarrow> (string \<times> error option) \<times> world" where
  "Node_Role NodeRoleKey rt n w =
     (let role' = nodeCache_Role (cache w) in
      if role' \<noteq> [] then ((role', None), w)
      else
        let ((lines, err), w1) =
              call rt (docker_Inspect (name n)
                (Sprintf ''{{index .Config.Labels %q}}'' [AStr NodeRoleKey])) w in
        if err \<noteq> None then
          (([], errors_Wrapf err ''failed to get %q label'' [AStr NodeRoleKey]), w1)
        else if length lines \<noteq> 1 then
          (([], errors_Errorf ''%q label should only be one line, got %d lines''
                  [AStr NodeRoleKey, AInt (int (length lines))]), w1)
        else
          let role'' = strings_Trim (lines ! 0) [CHR 0x27] in
          ((role'', None), nodeCache_set (\<lambda>c. c\<lparr>role := role''\<rparr>) w1))"

definition Node_WriteFile :: "runtime \<Rightarrow> Node \<Rightarrow> string \<Rightarrow> string \<Rightarrow> world \<Rightarrow> error option \<times> world" where
  "Node_WriteFile rt n dest content w =
     (let cmd = Node_Command n ''mkdir'' [''-p'', filepath_Dir dest];
          ((lines, err), w1) = call rt (exec_RunLoggingOutputOnFail cmd) w in
      if err \<noteq> None then (errors_Wrapf err ''failed to create directory %s'' [AStr dest], w1)
      else
        let ((lines', err'), w2) =
              call rt (cmd_Run (SetStdin (Node_Command n ''cp'' [''/dev/stdin'', dest]) content)) w1
        in (err', w2))"

definition Node_ImageInspect :: "runtime \<Rightarrow> Node \<Rightarrow> string \<Rightarrow> world \<Rightarrow> (string list \<times> error option) \<times> world" where
  "Node_ImageInspect rt n containerNameOrID w =
     (let cmd = Node_Command n ''crictl''
                  [''-r'', ''/var/run/containerd/containerd.sock'', ''inspecti'', containerNameOrID]
      in call rt (exec_CombinedOutputLines cmd) w)"

text \<open>The image reader is the text it yields.\<close>

definition Node_LoadImageArchive :: "runtime \<Rightarrow> Node \<Rightarrow> string \<Rightarrow> world \<Rightarrow> error option \<times> world" where
  "Node_LoadImageArchive rt n img w =
     (let cmd = SetStdin (Node_Command n ''ctr'' [''--namespace=k8s.io'', ''images'', ''import'', ''-''])
                  img;
          ((lines, err), w1) = call rt (cmd_Run cmd) w in
      if err \<noteq> None then (errors_Wrap err ''failed to load image'', w1)
      else (None, w1))"

subsection \<open>Proxy settings of the host\<close>

text \<open>
  \<^verbatim>\<open>os.Getenv\<close> reads the environment, a map from names to values, and returns the
  empty string for a name that is not set. \<open>proxy_loop\<close> is the loop of
  \<^verbatim>\<open>getProxyDetails\<close> over the names, with the map built so far.
\<close>

type_synonym environ = "string \<rightharpoonup> string"

definition os_Getenv :: "environ \<Rightarrow> string \<Rightarrow> string" where
  "os_Getenv env key = (case env key of None \<Rightarrow> [] | Some v \<Rightarrow> v)"

record proxyDetails =
  Envs :: "string \<rightharpoonup> string"

definition proxyEnvs :: "string list" where
  "proxyEnvs = [''HTTP_PROXY'', ''HTTPS_PROXY'', ''NO_PROXY'']"

fun proxy_loop :: "environ \<Rightarrow> string list \<Rightarrow> proxyDetails \<Rightarrow> proxyDetails" where
  "proxy_loop env [] details = details"
| "proxy_loop env (nm # names) details =
     (let val = os_Getenv env nm in
      if val \<noteq> [] then proxy_loop env names (details\<lparr>Envs := (Envs details)(nm \<mapsto> val)\<rparr>)
      else
        let val' = os_Getenv env (strings_ToLower nm) in
        if val' \<noteq> [] then proxy_loop env names (details\<lparr>Envs := (Envs details)(nm \<mapsto> val')\<rparr>)
        else proxy_loop env names details)"

definition getProxyDetails :: "environ \<Rightarrow> proxyDetails" where
  "getProxyDetails env = proxy_loop env proxyEnvs \<lparr>Envs = Map.empty\<rparr>"

subsection \<open>Sequences of operations\<close>

text \<open>The requests that the four queries issue on a cache miss, and the two requests of
  \<open>Node_WriteFile\<close>.\<close>

definition kubeVersionQuery :: "Node \<Rightarrow> request" where
  "kubeVersionQuery n = exec_CombinedOutputLines (Cmd (name n) ''cat'' [''/kind/version''] None)"

definition ipQuery :: "Node \<Rightarrow> request" where
  "ipQuery n =
     docker_Inspect (name n) (Lit ''{{range .NetworkSettings.Networks}}{{.IPAddress}}{{end}}'')"

definition portQuery :: "Node \<Rightarrow> int32 \<Rightarrow> request" where
  "portQuery n containerPort =
     docker_Inspect (name n) (Sprintf portTemplate [AInt (sint containerPort)])"

definition roleQuery :: "string \<Rightarrow> Node \<Rightarrow> request" where
  "roleQuery NodeRoleKey n =
     docker_Inspect (name n) (Sprintf ''{{index .Config.Labels %q}}'' [AStr NodeRoleKey])"

definition mkdirRequest :: "Node \<Rightarrow> string \<Rightarrow> request" where
  "mkdirRequest n dest =
     exec_RunLoggingOutputOnFail (Cmd (name n) ''mkdir'' [''-p'', filepath_Dir dest] None)"

definition cpRequest :: "Node \<Rightarrow> string \<Rightarrow> string \<Rightarrow> request" where
  "cpRequest n dest content = cmd_Run (Cmd (name n) ''cp'' [''/dev/stdin'', dest] (Some content))"

text \<open>A call of one operation of the handle that no other call overlaps, and the state
  after a sequence of such calls, each begun after the one before it has returned.\<close>

datatype op =
    KubeVersion
  | IP
  | Ports int32
  | Role
  | CopyTo string string
  | CopyFrom string string
  | WriteFile string string
  | ImageInspect string
  | LoadImageArchive string

fun exec_op :: "string \<Rightarrow> runtime \<Rightarrow> Node \<Rightarrow> op \<Rightarrow> world \<Rightarrow> world" where
  "exec_op key rt n KubeVersion w = snd (Node_KubeVersion rt n w)"
| "exec_op key rt n IP w = snd (Node_IP rt n w)"
| "exec_op key rt n (Ports p) w = snd (Node_Ports rt n p w)"
| "exec_op key rt n Role w = snd (Node_Role key rt n w)"
| "exec_op key rt n (CopyTo source dest) w = snd (Node_CopyTo rt n source dest w)"
| "exec_op key rt n (CopyFrom source dest) w = snd (Node_CopyFrom rt n source dest w)"
| "exec_op key rt n (WriteFile dest content) w = snd (Node_WriteFile rt n dest content w)"
| "exec_op key rt n (ImageInspect i) w = snd (Node_ImageInspect rt n i w)"
| "exec_op key rt n (LoadImageArchive img) w = snd (Node_LoadImageArchive rt n img w)"

fun run_ops :: "string \<Rightarrow> runtime \<Rightarrow> Node \<Rightarrow> op list \<Rightarrow> world \<Rightarrow> world" where
  "run_ops key rt n [] w = w"
| "run_ops key rt n (x # xs) w = run_ops key rt n xs (exec_op key rt n x w)"

text \<open>Runtimes and states for concrete runs: \<open>stub_script\<close> answers the k-th request
  issued with the k-th entry of a script (and with no output once the script is used up);
  \<open>emptyWorld\<close> is the state of a fresh handle.\<close>

definition stub_script :: "(string list \<times> error option) list \<Rightarrow> runtime" where
  "stub_script answers h r = (if length h < length answers then answers ! length h else ([], None))"

definition emptyWorld :: world where
  "emptyWorld =
     \<lparr>cache = \<lparr>kubernetesVersion = [], ip = [], ports = None, role = []\<rparr>, issued = []\<rparr>"

definition node1 :: Node where
  "node1 = \<lparr>name = ''kind-control-plane''\<rparr>"

text \<open>Decimal numerals: \<open>isDigit\<close> holds of the characters 0 to 9, and \<open>decimal\<close> is the
  value of a text of digits.\<close>

definition isDigit :: "char \<Rightarrow> bool" where
  "isDigit c = (48 \<le> (of_char c :: int) \<and> (of_char c :: int) \<le> 57)"

definition decimal :: "string \<Rightarrow> int" where
  "decimal ds = foldl (\<lambda>a c. a * 10 + (of_char c - 48)) 0 ds"

text \<open>\<open>cache_le c c'\<close>: every field that is set in \<open>c\<close> is set to the same value in
  \<open>c'\<close>.\<close>

definition cache_le :: "nodeCache \<Rightarrow> nodeCache \<Rightarrow> bool" where
  "cache_le c c' =
     ((kubernetesVersion c \<noteq> [] \<longrightarrow> kubernetesVersion c' = kubernetesVersion c) \<and>
      (ip c \<noteq> [] \<longrightarrow> ip c' = ip c) \<and>
      (role c \<noteq> [] \<longrightarrow> role c' = role c) \<and>
      (\<forall>p v. nodeCache_HostPort c p = (v, True) \<longrightarrow> nodeCache_HostPort c' p = (v, True)))"

text \<open>A state whose cache holds every field, and two scripted runtimes: one answers
  the first request with no line and the second with one line, the other answers with a
  different version each time it is asked.\<close>

definition warmWorld :: world where
  "warmWorld =
     \<lparr>cache = \<lparr>kubernetesVersion = ''v1.14.2'', ip = ''172.17.0.2'',
               ports = Some [6443 \<mapsto> 32769], role = ''control-plane''\<rparr>,
      issued = []\<rparr>"

definition retryScript :: runtime where
  "retryScript = stub_script [([], None), ([''v1.14.2''], None)]"

definition versionScript :: runtime where
  "versionScript = stub_script [([''v1.14.2''], None), ([''v9.9.9''], None), ([''v9.9.9''], None)]"

text \<open>\<open>described e\<close>: the error \<open>e\<close> carries a description written in this file, as
  a wrapped error or as a new one.\<close>

fun described :: "error \<Rightarrow> bool" where
  "described (Wrap e m) = True"
| "described (Wrapf e f as) = True"
| "described (Errorf f as) = True"
| "described e = False"

text \<open>The requests of \<open>Node_LoadImageArchive\<close> and \<open>Node_ImageInspect\<close>, and runtimes
  whose first or second answer is a failure, or that never fail.\<close>

definition loadRequest :: "Node \<Rightarrow> string \<Rightarrow> request" where
  "loadRequest n img =
     cmd_Run (Cmd (name n) ''ctr'' [''--namespace=k8s.io'', ''images'', ''import'', ''-''] (Some img))"

definition imageInspectRequest :: "Node \<Rightarrow> string \<Rightarrow> request" where
  "imageInspectRequest n i =
     exec_CombinedOutputLines (Cmd (name n) ''crictl''
       [''-r'', ''/var/run/containerd/containerd.sock'', ''inspecti'', i] None)"

definition failScript :: runtime where
  "failScript = stub_script [([], Some (External ''exit status 1''))]"

definition cpFailScript :: runtime where
  "cpFailScript = stub_script [([], None), ([], Some (External ''exit status 1''))]"

definition okScript :: runtime where
  "okScript = stub_script [([], None), ([], None)]"

text \<open>\<open>numeralText l\<close>: the text \<open>l\<close> is a decimal numeral, a sign or none and then
  one digit or more.\<close>

definition numeralText :: "string \<Rightarrow> bool" where
  "numeralText l =
     (let ds = (if l \<noteq> [] \<and> (hd l = CHR ''+'' \<or> hd l = CHR ''-'') then tl l else l)
      in ds \<noteq> [] \<and> (\<forall>c \<in> set ds. isDigit c))"

text \<open>Runtimes that answer the port query with a number beyond 32 bits, with a port, and
  with a word; environments with the proxy variable in lower case only, and in both
  cases.\<close>

definition rangeScript :: runtime where
  "rangeScript = stub_script [([''3000000000''], None)]"

definition portScript :: runtime where
  "portScript = stub_script [([''32769''], None)]"

definition wordScript :: runtime where
  "wordScript = stub_script [([''not-a-number''], None)]"

definition env1 :: environ where
  "env1 = [''HTTP_PROXY'' \<mapsto> [], ''http_proxy'' \<mapsto> ''http://x'']"

definition env2 :: environ where
  "env2 = [''HTTP_PROXY'' \<mapsto> ''http://y'', ''http_proxy'' \<mapsto> ''http://x'']"

subsection \<open>Calls that overlap\<close>

text \<open>
  A query reads the cache under the read lock and lets the lock go; it asks the runtime
  with no lock held; it then checks the answer and stores the value under the write lock.
  Between these three steps other calls may run. \<open>pc\<close> is the point a call has reached:
  not begun, past a cache miss, holding the answer of the runtime, past the first command
  of \<^verbatim>\<open>WriteFile\<close>, or returned with its result. The operations that never touch the
  cache issue one request in one step (two for \<^verbatim>\<open>WriteFile\<close>).
\<close>

datatype ret = RetStr string | RetPort int32 | RetLines "string list" | RetNone

datatype pc =
    Start op
  | Missed op
  | Answered op "string list \<times> error option"
  | Mkdired string string
  | Returned op ret "error option"

text \<open>The first step of a call: for a query, the read of the cache.\<close>

fun op_begin :: "runtime \<Rightarrow> Node \<Rightarrow> op \<Rightarrow> world \<Rightarrow> pc \<times> world" where
  "op_begin rt n KubeVersion w =
     (let cachedVersion = nodeCache_KubeVersion (cache w) in
      if cachedVersion \<noteq> [] then (Returned KubeVersion (RetStr cachedVersion) None, w)
      else (Missed KubeVersion, w))"
| "op_begin rt n IP w =
     (let cachedIP = nodeCache_IP (cache w) in
      if cachedIP \<noteq> [] then (Returned IP (RetStr cachedIP) None, w)
      else (Missed IP, w))"
| "op_begin rt n (Ports containerPort) w =
     (let (hostPort, isCached) = nodeCache_HostPort (cache w) containerPort in
      if isCached then (Returned (Ports containerPort) (RetPort hostPort) None, w)
      else (Missed (Ports containerPort), w))"
| "op_begin rt n Role w =
     (let role' = nodeCache_Role (cache w) in
      if role' \<noteq> [] then (Returned Role (RetStr role') None, w)
      else (Missed Role, w))"
| "op_begin rt n (CopyTo source dest) w =
     (let (err, w1) = Node_CopyTo rt n source dest w
      in (Returned (CopyTo source dest) RetNone err, w1))"
| "op_begin rt n (CopyFrom source dest) w =
     (let (err, w1) = Node_CopyFrom rt n source dest w
      in (Returned (CopyFrom source dest) RetNone err, w1))"
| "op_begin rt n (WriteFile dest content) w =
     (let cmd = Node_Command n ''mkdir'' [''-p'', filepath_Dir dest];
          ((lines, err), w1) = call rt (exec_RunLoggingOutputOnFail cmd) w in
      if err \<noteq> None then
        (Returned (WriteFile dest content) RetNone
           (errors_Wrapf err ''failed to create directory %s'' [AStr dest]), w1)
      else (Mkdired dest content, w1))"
| "op_begin rt n (ImageInspect i) w =
     (let ((lines, err), w1) = Node_ImageInspect rt n i w
      in (Returned (ImageInspect i) (RetLines lines) err, w1))"
| "op_begin rt n (LoadImageArchive img) w =
     (let (err, w1) = Node_LoadImageArchive rt n img w
      in (Returned (LoadImageArchive img) RetNone err, w1))"

text \<open>The second step of a query: the request to the runtime, with no lock held.\<close>

fun op_query :: "string \<Rightarrow> runtime \<Rightarrow> Node \<Rightarrow> op \<Rightarrow> world \<Rightarrow> pc \<times> world" where
  "op_query key rt n KubeVersion w =
     (let cmd = Node_Command n ''cat'' [''/kind/version''];
          (answer, w1) = call rt (exec_CombinedOutputLines cmd) w
      in (Answered KubeVersion answer, w1))"
| "op_query key rt n IP w =
     (let (answer, w1) =
            call rt (docker_Inspect (name n)
              (Lit ''{{range .NetworkSettings.Networks}}{{.IPAddress}}{{end}}'')) w
      in (Answered IP answer, w1))"
| "op_query key rt n (Ports containerPort) w =
     (let (answer, w1) =
            call rt (docker_Inspect (name n)
              (Sprintf portTemplate [AInt (sint containerPort)])) w
      in (Answered (Ports containerPort) answer, w1))"
| "op_query key rt n Role w =
     (let (answer, w1) =
            call rt (docker_Inspect (name n)
              (Sprintf ''{{index .Config.Labels %q}}'' [AStr key])) w
      in (Answered Role answer, w1))"
| "op_query key rt n x w = (Missed x, w)"

text \<open>The third step of a query: the checks of the answer and, when they pass, the write
  to the cache through \<^verbatim>\<open>cache.set\<close>, which does not look at what the field holds.\<close>

fun op_finish :: "string \<Rightarrow> op \<Rightarrow> string list \<times> error option \<Rightarrow> world \<Rightarrow> pc \<times> world" where
  "op_finish key KubeVersion (lines, err) w =
     (if err \<noteq> None then
        (Returned KubeVersion (RetStr []) (errors_Wrap err ''failed to get file''), w)
      else if length lines \<noteq> 1 then
        (Returned KubeVersion (RetStr [])
           (errors_Errorf ''file should only be one line, got %d lines''
              [AInt (int (length lines))]), w)
      else
        let version = lines ! 0 in
        (Returned KubeVersion (RetStr version) None,
         nodeCache_set (\<lambda>c. c\<lparr>kubernetesVersion := version\<rparr>) w))"
| "op_finish key IP (lines, err) w =
     (if err \<noteq> None then
        (Returned IP (RetStr []) (errors_Wrap err ''failed to get file''), w)
      else if length lines \<noteq> 1 then
        (Returned IP (RetStr [])
           (errors_Errorf ''file should only be one line, got %d lines''
              [AInt (int (length lines))]), w)
      else
        let ip' = lines ! 0 in
        (Returned IP (RetStr ip') None, nodeCache_set (\<lambda>c. c\<lparr>ip := ip'\<rparr>) w))"
| "op_finish key (Ports containerPort) (lines, err) w =
     (if err \<noteq> None then
        (Returned (Ports containerPort) (RetPort (- 1)) (errors_Wrap err ''failed to get file''), w)
      else if length lines \<noteq> 1 then
        (Returned (Ports containerPort) (RetPort (- 1))
           (errors_Errorf ''file should only be one line, got %d lines''
              [AInt (int (length lines))]), w)
      else
        let (parsed, err') = strconv_ParseInt (lines ! 0) 32 in
        if err' \<noteq> None then
          (Returned (Ports containerPort) (RetPort (- 1))
             (errors_Wrap err' ''failed to get file''), w)
        else
          let hostPort' = (word_of_int parsed :: int32) in
          (Returned (Ports containerPort) (RetPort hostPort') None,
           nodeCache_set (\<lambda>c. c\<lparr>ports :=
               Some ((case ports c of None \<Rightarrow> Map.empty | Some m \<Rightarrow> m)
                      (containerPort \<mapsto> hostPort'))\<rparr>) w))"
| "op_finish key Role (lines, err) w =
     (if err \<noteq> None then
        (Returned Role (RetStr []) (errors_Wrapf err ''failed to get %q label'' [AStr key]), w)
      else if length lines \<noteq> 1 then
        (Returned Role (RetStr [])
           (errors_Errorf ''%q label should only be one line, got %d lines''
              [AStr key, AInt (int (length lines))]), w)
      else
        let role'' = strings_Trim (lines ! 0) [CHR 0x27] in
        (Returned Role (RetStr role'') None, nodeCache_set (\<lambda>c. c\<lparr>role := role''\<rparr>) w))"
| "op_finish key x answer w = (Answered x answer, w)"

text \<open>One step of a call, and a schedule: the list of the calls that take the next step,
  by their index. A call that has returned takes no step.\<close>

fun step :: "string \<Rightarrow> runtime \<Rightarrow> Node \<Rightarrow> pc \<Rightarrow> world \<Rightarrow> pc \<times> world" where
  "step key rt n (Start x) w = op_begin rt n x w"
| "step key rt n (Missed x) w = op_query key rt n x w"
| "step key rt n (Answered x answer) w = op_finish key x answer w"
| "step key rt n (Mkdired dest content) w =
     (let ((lines, err), w1) =
            call rt (cmd_Run (SetStdin (Node_Command n ''cp'' [''/dev/stdin'', dest]) content)) w
      in (Returned (WriteFile dest content) RetNone err, w1))"
| "step key rt n (Returned x r e) w = (Returned x r e, w)"

fun run_sched :: "string \<Rightarrow> runtime \<Rightarrow> Node \<Rightarrow> nat list \<Rightarrow> world \<times> pc list \<Rightarrow> world \<times> pc list" where
  "run_sched key rt n [] cfg = cfg"
| "run_sched key rt n (i # sched) (w, pcs) =
     (if i < length pcs then
        (let (pc', w') = step key rt n (pcs ! i) w
         in run_sched key rt n sched (w', pcs[i := pc']))
      else run_sched key rt n sched (w, pcs))"

text \<open>A call that runs alone takes its three steps one after the other.\<close>

definition solo :: "string \<Rightarrow> runtime \<Rightarrow> Node \<Rightarrow> op \<Rightarrow> world \<Rightarrow> pc \<times> world" where
  "solo key rt n x w =
     (let (p1, w1) = step key rt n (Start x) w;
          (p2, w2) = step key rt n p1 w1
      in step key rt n p2 w2)"

text \<open>\<open>immutable facts\<close> is a runtime whose answer to a request never changes: the facts
  about the node stay as they are.\<close>

definition immutable :: "(request \<Rightarrow> string list \<times> error option) \<Rightarrow> runtime" where
  "immutable facts h r = facts r"

text \<open>\<open>field x c\<close> is the value that the cache \<open>c\<close> holds for the query \<open>x\<close>, if the field
  is set; \<open>stored x answer\<close> is the value that the query stores for an answer that passes
  its checks; \<open>query_of\<close> is the request of a query.\<close>

fun field :: "op \<Rightarrow> nodeCache \<Rightarrow> ret option" where
  "field KubeVersion c = (if kubernetesVersion c \<noteq> [] then Some (RetStr (kubernetesVersion c)) else None)"
| "field IP c = (if ip c \<noteq> [] then Some (RetStr (ip c)) else None)"
| "field Role c = (if role c \<noteq> [] then Some (RetStr (role c)) else None)"
| "field (Ports p) c =
     (case ports c of None \<Rightarrow> None
      | Some m \<Rightarrow> (case m p of None \<Rightarrow> None | Some v \<Rightarrow> Some (RetPort v)))"
| "field x c = None"

fun stored :: "op \<Rightarrow> string list \<times> error option \<Rightarrow> ret option" where
  "stored KubeVersion (lines, err) =
     (if err = None \<and> length lines = 1 then Some (RetStr (lines ! 0)) else None)"
| "stored IP (lines, err) =
     (if err = None \<and> length lines = 1 then Some (RetStr (lines ! 0)) else None)"
| "stored Role (lines, err) =
     (if err = None \<and> length lines = 1 then Some (RetStr (strings_Trim (lines ! 0) [CHR 0x27]))
      else None)"
| "stored (Ports p) (lines, err) =
     (if err = None \<and> length lines = 1 \<and> snd (strconv_ParseInt (lines ! 0) 32) = None
      then Some (RetPort (word_of_int (fst (strconv_ParseInt (lines ! 0) 32)))) else None)"
| "stored x answer = None"

fun query_of :: "string \<Rightarrow> Node \<Rightarrow> op \<Rightarrow> request" where
  "query_of key n IP = ipQuery n"
| "query_of key n (Ports p) = portQuery n p"
| "query_of key n Role = roleQuery key n"
| "query_of key n x = kubeVersionQuery n"

fun is_query :: "op \<Rightarrow> bool" where
  "is_query KubeVersion = True"
| "is_query IP = True"
| "is_query (Ports p) = True"
| "is_query Role = True"
| "is_query x = False"

text \<open>
  What holds of every call while calls overlap against an immutable runtime, from a state
  with cache \<open>c0\<close> in which no call has begun: a call is past a miss only for a field that
  was unset in \<open>c0\<close>, the answer it holds is the fact, and a value returned with a nil
  error is the value of \<open>c0\<close> or the value stored for the fact. \<open>cache_ok\<close>: a field set in
  \<open>c0\<close> is unchanged, and any other field is unset or holds the value stored for the fact.
\<close>

fun good :: "string \<Rightarrow> Node \<Rightarrow> (request \<Rightarrow> string list \<times> error option) \<Rightarrow> nodeCache \<Rightarrow> pc \<Rightarrow> bool" where
  "good key n facts c0 (Start x) = True"
| "good key n facts c0 (Missed x) = (field x c0 = None)"
| "good key n facts c0 (Answered x answer) =
     (field x c0 = None \<and> answer = facts (query_of key n x))"
| "good key n facts c0 (Mkdired dest content) = True"
| "good key n facts c0 (Returned x r e) =
     (e = None \<and> is_query x \<longrightarrow>
        field x c0 = Some r \<or>
        field x c0 = None \<and> stored x (facts (query_of key n x)) = Some r)"

definition cache_ok :: "string \<Rightarrow> Node \<Rightarrow> (request \<Rightarrow> string list \<times> error option) \<Rightarrow> nodeCache \<Rightarrow> nodeCache \<Rightarrow> bool" where
  "cache_ok key n facts c0 c =
     (\<forall>x. is_query x \<longrightarrow>
        (case field x c0 of
           Some v \<Rightarrow> field x c = Some v
         | None \<Rightarrow> field x c = None \<or> field x c = stored x (facts (query_of key n x))))"

text \<open>\<open>fresh pcs\<close>: no call has begun. \<open>shown r\<close> is what the field holds once the
  value \<open>r\<close> is written to it: an empty text leaves the field unset. \<open>seq_sched a k\<close>
  is the schedule in which the \<open>k\<close> calls from index \<open>a\<close> on run one after the other,
  each to its end.\<close>

fun is_Start :: "pc \<Rightarrow> bool" where
  "is_Start (Start x) = True"
| "is_Start p = False"

definition fresh :: "pc list \<Rightarrow> bool" where
  "fresh pcs = (\<forall>p \<in> set pcs. is_Start p)"

fun shown :: "ret \<Rightarrow> ret option" where
  "shown (RetStr s) = (if s = [] then None else Some (RetStr s))"
| "shown r = Some r"

definition seq_sched :: "nat \<Rightarrow> nat \<Rightarrow> nat list" where
  "seq_sched a k = concat (map (\<lambda>i. [i, i, i]) [a..<a + k])"

text \<open>A runtime that answers the version query with \<^verbatim>\<open>vA\<close> and then with
  \<^verbatim>\<open>vB\<close>.\<close>

definition twoVersions :: runtime where
  "twoVersions = stub_script [([''vA''], None), ([''vB''], None)]"

text \<open>A runtime whose answer to every request is the version \<^verbatim>\<open>v1.14.2\<close>, and two
  calls of \<^verbatim>\<open>KubeVersion\<close> on a fresh handle.\<close>

definition oneVersion :: "request \<Rightarrow> string list \<times> error option" where
  "oneVersion r = ([''v1.14.2''], None)"

definition twoCalls :: "world \<times> pc list" where
  "twoCalls = (emptyWorld, [Start KubeVersion, Start KubeVersion])"

text \<open>\<open>plain e\<close>: the text \<open>e\<close> is the name of a file or a directory, with no slash in
  it and other than \<^verbatim>\<open>.\<close> and \<^verbatim>\<open>..\<close>.\<close>

definition plain :: "string \<Rightarrow> bool" where
  "plain e = (e \<noteq> [] \<and> CHR ''/'' \<notin> set e \<and> e \<noteq> ''.'' \<and> e \<noteq> ''..'')"

section \<open>Properties\<close>

subsection \<open>One call of a query\<close>

lemma KubeVersion_hit:
  "kubernetesVersion (cache w) \<noteq> [] \<Longrightarrow>
   Node_KubeVersion rt n w = ((kubernetesVersion (cache w), None), w)"
  by (simp add: Node_KubeVersion_def nodeCache_KubeVersion_def)

lemma KubeVersion_miss:
  assumes "kubernetesVersion (cache w) = []"
    and "rt (issued w) (kubeVersionQuery n) = (lines, err)"
  shows "Node_KubeVersion rt n w =
    (case err of
       Some e \<Rightarrow> (([], Some (Wrap e ''failed to get file'')), w\<lparr>issued := issued w @ [kubeVersionQuery n]\<rparr>)
     | None \<Rightarrow>
        if length lines \<noteq> 1 then
          (([], Some (Errorf ''file should only be one line, got %d lines'' [AInt (int (length lines))])),
           w\<lparr>issued := issued w @ [kubeVersionQuery n]\<rparr>)
        else ((lines ! 0, None),
              w\<lparr>issued := issued w @ [kubeVersionQuery n],
                cache := (cache w)\<lparr>kubernetesVersion := lines ! 0\<rparr>\<rparr>))"
  using assms
  by (simp add: Node_KubeVersion_def nodeCache_KubeVersion_def Node_Command_def
      kubeVersionQuery_def call_def errors_Wrap_def errors_Errorf_def nodeCache_set_def Let_def
      split: option.splits)

lemma IP_hit:
  "ip (cache w) \<noteq> [] \<Longrightarrow> Node_IP rt n w = ((ip (cache w), None), w)"
  by (simp add: Node_IP_def nodeCache_IP_def)

lemma IP_miss:
  assumes "ip (cache w) = []"
    and "rt (issued w) (ipQuery n) = (lines, err)"
  shows "Node_IP rt n w =
    (case err of
       Some e \<Rightarrow> (([], Some (Wrap e ''failed to get file'')), w\<lparr>issued := issued w @ [ipQuery n]\<rparr>)
     | None \<Rightarrow>
        if length lines \<noteq> 1 then
          (([], Some (Errorf ''file should only be one line, got %d lines'' [AInt (int (length lines))])),
           w\<lparr>issued := issued w @ [ipQuery n]\<rparr>)
        else ((lines ! 0, None),
              w\<lparr>issued := issued w @ [ipQuery n], cache := (cache w)\<lparr>ip := lines ! 0\<rparr>\<rparr>))"
  using assms
  by (simp add: Node_IP_def nodeCache_IP_def ipQuery_def call_def errors_Wrap_def
      errors_Errorf_def nodeCache_set_def Let_def split: option.splits)

lemma Role_hit:
  "role (cache w) \<noteq> [] \<Longrightarrow> Node_Role key rt n w = ((role (cache w), None), w)"
  by (simp add: Node_Role_def nodeCache_Role_def)

lemma Role_miss:
  assumes "role (cache w) = []"
    and "rt (issued w) (roleQuery key n) = (lines, err)"
  shows "Node_Role key rt n w =
    (case err of
       Some e \<Rightarrow> (([], Some (Wrapf e ''failed to get %q label'' [AStr key])),
                  w\<lparr>issued := issued w @ [roleQuery key n]\<rparr>)
     | None \<Rightarrow>
        if length lines \<noteq> 1 then
          (([], Some (Errorf ''%q label should only be one line, got %d lines''
                        [AStr key, AInt (int (length lines))])),
           w\<lparr>issued := issued w @ [roleQuery key n]\<rparr>)
        else ((strings_Trim (lines ! 0) [CHR 0x27], None),
              w\<lparr>issued := issued w @ [roleQuery key n],
                cache := (cache w)\<lparr>role := strings_Trim (lines ! 0) [CHR 0x27]\<rparr>\<rparr>))"
  using assms
  by (simp add: Node_Role_def nodeCache_Role_def roleQuery_def call_def errors_Wrapf_def
      errors_Errorf_def nodeCache_set_def Let_def split: option.splits)

lemma Ports_hit:
  "nodeCache_HostPort (cache w) p = (v, True) \<Longrightarrow> Node_Ports rt n p w = ((v, None), w)"
  by (simp add: Node_Ports_def)

lemma Ports_miss:
  assumes "snd (nodeCache_HostPort (cache w) p) = False"
    and "rt (issued w) (portQuery n p) = (lines, err)"
  shows "Node_Ports rt n p w =
    (case err of
       Some e \<Rightarrow> ((- 1, Some (Wrap e ''failed to get file'')), w\<lparr>issued := issued w @ [portQuery n p]\<rparr>)
     | None \<Rightarrow>
        if length lines \<noteq> 1 then
          ((- 1, Some (Errorf ''file should only be one line, got %d lines'' [AInt (int (length lines))])),
           w\<lparr>issued := issued w @ [portQuery n p]\<rparr>)
        else
          (case snd (strconv_ParseInt (lines ! 0) 32) of
             Some e' \<Rightarrow> ((- 1, Some (Wrap e' ''failed to get file'')),
                         w\<lparr>issued := issued w @ [portQuery n p]\<rparr>)
           | None \<Rightarrow>
               ((word_of_int (fst (strconv_ParseInt (lines ! 0) 32)), None),
                w\<lparr>issued := issued w @ [portQuery n p],
                  cache := (cache w)\<lparr>ports :=
                    Some ((case ports (cache w) of None \<Rightarrow> Map.empty | Some m \<Rightarrow> m)
                           (p \<mapsto> word_of_int (fst (strconv_ParseInt (lines ! 0) 32))))\<rparr>\<rparr>)))"
proof -
  obtain hp where hp: "nodeCache_HostPort (cache w) p = (hp, False)"
    using assms(1) by (cases "nodeCache_HostPort (cache w) p") simp
  obtain parsed perr where pe: "strconv_ParseInt (lines ! 0) 32 = (parsed, perr)"
    by (cases "strconv_ParseInt (lines ! 0) 32")
  show ?thesis
    using assms(2) hp pe
    by (simp add: Node_Ports_def portQuery_def call_def errors_Wrap_def errors_Errorf_def
        nodeCache_set_def Let_def split: option.splits)
qed

text \<open>The outcomes of one call: the value and the state after it, with a nil error
  and with an error.\<close>

lemma HostPort_True_iff:
  "nodeCache_HostPort c p = (v, True) \<longleftrightarrow> (\<exists>m. ports c = Some m \<and> m p = Some v)"
  by (auto simp: nodeCache_HostPort_def split: option.splits)

lemma HostPort_snd_iff:
  "snd (nodeCache_HostPort c p) \<longleftrightarrow> (\<exists>m v. ports c = Some m \<and> m p = Some v)"
  by (auto simp: nodeCache_HostPort_def split: option.splits)

lemma KubeVersion_outcome:
  assumes "Node_KubeVersion rt n w = ((s, err), w1)"
  shows "(err = None \<and> kubernetesVersion (cache w1) = s \<and>
            (w1 = w \<and> s \<noteq> [] \<or>
             kubernetesVersion (cache w) = [] \<and>
             w1 = w\<lparr>issued := issued w @ [kubeVersionQuery n],
                    cache := (cache w)\<lparr>kubernetesVersion := s\<rparr>\<rparr>)) \<or>
         (err \<noteq> None \<and> s = [] \<and> kubernetesVersion (cache w) = [] \<and>
            w1 = w\<lparr>issued := issued w @ [kubeVersionQuery n]\<rparr>)"
proof (cases "kubernetesVersion (cache w) = []")
  case True
  obtain lines e where "rt (issued w) (kubeVersionQuery n) = (lines, e)"
    by (cases "rt (issued w) (kubeVersionQuery n)")
  with True assms show ?thesis
    by (auto simp add: KubeVersion_miss split: option.splits if_splits)
next
  case False
  with assms show ?thesis by (auto simp add: KubeVersion_hit)
qed

lemma IP_outcome:
  assumes "Node_IP rt n w = ((s, err), w1)"
  shows "(err = None \<and> ip (cache w1) = s \<and>
            (w1 = w \<and> s \<noteq> [] \<or>
             ip (cache w) = [] \<and>
             w1 = w\<lparr>issued := issued w @ [ipQuery n], cache := (cache w)\<lparr>ip := s\<rparr>\<rparr>)) \<or>
         (err \<noteq> None \<and> s = [] \<and> ip (cache w) = [] \<and>
            w1 = w\<lparr>issued := issued w @ [ipQuery n]\<rparr>)"
proof (cases "ip (cache w) = []")
  case True
  obtain lines e where "rt (issued w) (ipQuery n) = (lines, e)"
    by (cases "rt (issued w) (ipQuery n)")
  with True assms show ?thesis
    by (auto simp add: IP_miss split: option.splits if_splits)
next
  case False
  with assms show ?thesis by (auto simp add: IP_hit)
qed

lemma Role_outcome:
  assumes "Node_Role key rt n w = ((s, err), w1)"
  shows "(err = None \<and> role (cache w1) = s \<and>
            (w1 = w \<and> s \<noteq> [] \<or>
             role (cache w) = [] \<and>
             w1 = w\<lparr>issued := issued w @ [roleQuery key n], cache := (cache w)\<lparr>role := s\<rparr>\<rparr>)) \<or>
         (err \<noteq> None \<and> s = [] \<and> role (cache w) = [] \<and>
            w1 = w\<lparr>issued := issued w @ [roleQuery key n]\<rparr>)"
proof (cases "role (cache w) = []")
  case True
  obtain lines e where "rt (issued w) (roleQuery key n) = (lines, e)"
    by (cases "rt (issued w) (roleQuery key n)")
  with True assms show ?thesis
    by (auto simp add: Role_miss split: option.splits if_splits)
next
  case False
  with assms show ?thesis by (auto simp add: Role_hit)
qed

lemma Ports_outcome:
  assumes "Node_Ports rt n p w = ((hp, err), w1)"
  shows "(err = None \<and> nodeCache_HostPort (cache w1) p = (hp, True) \<and>
            (w1 = w \<or>
             \<not> snd (nodeCache_HostPort (cache w) p) \<and>
             w1 = w\<lparr>issued := issued w @ [portQuery n p],
                    cache := (cache w)\<lparr>ports :=
                      Some ((case ports (cache w) of None \<Rightarrow> Map.empty | Some m \<Rightarrow> m)
                             (p \<mapsto> hp))\<rparr>\<rparr>)) \<or>
         (err \<noteq> None \<and> hp = - 1 \<and> \<not> snd (nodeCache_HostPort (cache w) p) \<and>
            w1 = w\<lparr>issued := issued w @ [portQuery n p]\<rparr>)"
proof (cases "snd (nodeCache_HostPort (cache w) p)")
  case False
  obtain lines e where "rt (issued w) (portQuery n p) = (lines, e)"
    by (cases "rt (issued w) (portQuery n p)")
  with False assms show ?thesis
    by (auto simp add: Ports_miss HostPort_True_iff split: option.splits if_splits)
next
  case True
  then obtain v where "nodeCache_HostPort (cache w) p = (v, True)"
    by (cases "nodeCache_HostPort (cache w) p") simp
  with assms show ?thesis by (auto simp add: Ports_hit)
qed

subsection \<open>Wrong number of output lines\<close>

text \<open>
  Claim C2. For each of the four queries (KubeVersion, IP, Ports, Role): when the cache
  does not hold the value, and the runtime answers the query without an error but with
  zero lines or with more than one line, the operation returns the zero result (the empty
  text, or the port -1) together with the error that reports the number of lines. This is
  the error the specification calls UnexpectedOutputShape.
\<close>

theorem C2_wrong_line_count_is_an_error:
  assumes "length lines \<noteq> 1"
  shows
    "(kubernetesVersion (cache w) = [] \<and> rt (issued w) (kubeVersionQuery n) = (lines, None) \<longrightarrow>
        fst (Node_KubeVersion rt n w) =
          ([], Some (Errorf ''file should only be one line, got %d lines''
                       [AInt (int (length lines))]))) \<and>
     (ip (cache w) = [] \<and> rt (issued w) (ipQuery n) = (lines, None) \<longrightarrow>
        fst (Node_IP rt n w) =
          ([], Some (Errorf ''file should only be one line, got %d lines''
                       [AInt (int (length lines))]))) \<and>
     (snd (nodeCache_HostPort (cache w) p) = False \<and> rt (issued w) (portQuery n p) = (lines, None) \<longrightarrow>
        fst (Node_Ports rt n p w) =
          (- 1, Some (Errorf ''file should only be one line, got %d lines''
                        [AInt (int (length lines))]))) \<and>
     (role (cache w) = [] \<and> rt (issued w) (roleQuery key n) = (lines, None) \<longrightarrow>
        fst (Node_Role key rt n w) =
          ([], Some (Errorf ''%q label should only be one line, got %d lines''
                       [AStr key, AInt (int (length lines))])))"
proof (intro conjI impI)
  assume "kubernetesVersion (cache w) = [] \<and> rt (issued w) (kubeVersionQuery n) = (lines, None)"
  then show "fst (Node_KubeVersion rt n w) =
      ([], Some (Errorf ''file should only be one line, got %d lines'' [AInt (int (length lines))]))"
    using assms by (simp add: KubeVersion_miss)
next
  assume "ip (cache w) = [] \<and> rt (issued w) (ipQuery n) = (lines, None)"
  then show "fst (Node_IP rt n w) =
      ([], Some (Errorf ''file should only be one line, got %d lines'' [AInt (int (length lines))]))"
    using assms by (simp add: IP_miss)
next
  assume "snd (nodeCache_HostPort (cache w) p) = False \<and> rt (issued w) (portQuery n p) = (lines, None)"
  then show "fst (Node_Ports rt n p w) =
      (- 1, Some (Errorf ''file should only be one line, got %d lines'' [AInt (int (length lines))]))"
    using assms by (simp add: Ports_miss)
next
  assume "role (cache w) = [] \<and> rt (issued w) (roleQuery key n) = (lines, None)"
  then show "fst (Node_Role key rt n w) =
      ([], Some (Errorf ''%q label should only be one line, got %d lines''
                   [AStr key, AInt (int (length lines))]))"
    using assms by (simp add: Role_miss)
qed

text \<open>A fresh handle whose runtime answers with two lines, and one whose runtime answers
  with none.\<close>

theorem C2_wrong_line_count_witness:
  "fst (Node_KubeVersion (stub_script [([''v1.14.2'', ''extra''], None)]) node1 emptyWorld) =
     ([], Some (Errorf ''file should only be one line, got %d lines'' [AInt 2])) \<and>
   fst (Node_IP (stub_script [([''172.17.0.2'', ''172.17.0.3''], None)]) node1 emptyWorld) =
     ([], Some (Errorf ''file should only be one line, got %d lines'' [AInt 2])) \<and>
   fst (Node_Ports (stub_script [([], None)]) node1 6443 emptyWorld) =
     (- 1, Some (Errorf ''file should only be one line, got %d lines'' [AInt 0])) \<and>
   fst (Node_Role ''io.k8s.sigs.kind.role'' (stub_script [([], None)]) node1 emptyWorld) =
     ([], Some (Errorf ''%q label should only be one line, got %d lines''
                  [AStr ''io.k8s.sigs.kind.role'', AInt 0]))"
proof -
  have two: "length [''v1.14.2'', ''extra''] \<noteq> 1" and two': "length [''172.17.0.2'', ''172.17.0.3''] \<noteq> 1"
    and none: "length ([] :: string list) \<noteq> 1"
    by simp_all
  show ?thesis
    using C2_wrong_line_count_is_an_error [OF two, of emptyWorld
            "stub_script [([''v1.14.2'', ''extra''], None)]" node1]
          C2_wrong_line_count_is_an_error [OF two', of emptyWorld
            "stub_script [([''172.17.0.2'', ''172.17.0.3''], None)]" node1]
          C2_wrong_line_count_is_an_error [OF none, of emptyWorld
            "stub_script [([], None)]" node1 6443 "''io.k8s.sigs.kind.role''"]
    by (simp add: emptyWorld_def stub_script_def nodeCache_HostPort_def)
qed

subsection \<open>The role label\<close>

text \<open>
  Claim C7. When the cache holds no role and the role query is answered with the single
  line \<^verbatim>\<open>'control-plane'\<close> (the text between two single quotes, \<open>CHR 0x27\<close>),
  \<open>Node_Role\<close> returns \<^verbatim>\<open>control-plane\<close> and a nil error, and this text without the
  quotes is what the cache holds afterwards.
\<close>

theorem C7_Role_strips_quotes:
  assumes "role (cache w) = []"
    and "rt (issued w) (roleQuery key n) = ([CHR 0x27 # ''control-plane'' @ [CHR 0x27]], None)"
  shows "fst (Node_Role key rt n w) = (''control-plane'', None) \<and>
         role (cache (snd (Node_Role key rt n w))) = ''control-plane''"
  using assms by (simp add: Role_miss strings_Trim_def)

theorem C7_Role_strips_quotes_witness:
  "role (cache emptyWorld) = [] \<and>
   fst (Node_Role ''io.k8s.sigs.kind.role''
          (stub_script [([CHR 0x27 # ''control-plane'' @ [CHR 0x27]], None)]) node1 emptyWorld) =
     (''control-plane'', None) \<and>
   role (cache (snd (Node_Role ''io.k8s.sigs.kind.role''
          (stub_script [([CHR 0x27 # ''control-plane'' @ [CHR 0x27]], None)]) node1 emptyWorld))) =
     ''control-plane''"
proof -
  have miss: "role (cache emptyWorld) = []"
    by (simp add: emptyWorld_def)
  have answer: "stub_script [([CHR 0x27 # ''control-plane'' @ [CHR 0x27]], None)]
      (issued emptyWorld) (roleQuery ''io.k8s.sigs.kind.role'' node1) =
      ([CHR 0x27 # ''control-plane'' @ [CHR 0x27]], None)"
    by (simp add: emptyWorld_def stub_script_def)
  show ?thesis
    using miss C7_Role_strips_quotes [of emptyWorld
        "stub_script [([CHR 0x27 # ''control-plane'' @ [CHR 0x27]], None)]"
        "''io.k8s.sigs.kind.role''" node1, OF miss answer]
    by simp
qed

text \<open>In general \<^verbatim>\<open>strings.Trim\<close> with the cutset of one character removes every
  such character at both ends and nothing else, and so does \<open>Node_Role\<close> with the single
  quote.\<close>

lemma dropWhile_replicate_quote:
  "dropWhile (\<lambda>c. c = q) (replicate a q @ ys) = dropWhile (\<lambda>c. c = q) ys"
  by (induction a) simp_all

lemma strings_Trim_between:
  assumes "m = [] \<or> hd m \<noteq> q \<and> last m \<noteq> q"
  shows "strings_Trim (replicate a q @ m @ replicate b q) [q] = m"
proof (cases "m = []")
  case True
  have "dropWhile (\<lambda>c. c = q) (replicate b q @ []) = []"
    unfolding dropWhile_replicate_quote by simp
  with True show ?thesis
    by (simp add: strings_Trim_def dropWhile_replicate_quote)
next
  case False
  with assms have h: "hd m \<noteq> q" and l: "last m \<noteq> q" by simp_all
  have keep: "dropWhile (\<lambda>c. c = q) (m @ replicate b q) = m @ replicate b q"
    using False h by (cases m) simp_all
  have "hd (rev m) \<noteq> q" "rev m \<noteq> []"
    using False l by (simp_all add: hd_rev)
  then have keep': "dropWhile (\<lambda>c. c = q) (rev m) = rev m"
    by (cases "rev m") simp_all
  show ?thesis
    by (simp add: strings_Trim_def dropWhile_replicate_quote keep keep')
qed

lemma Role_trims_quotes:
  assumes "role (cache w) = []"
    and "rt (issued w) (roleQuery key n) =
      ([replicate a (CHR 0x27) @ m @ replicate b (CHR 0x27)], None)"
    and "m = [] \<or> hd m \<noteq> CHR 0x27 \<and> last m \<noteq> CHR 0x27"
  shows "fst (Node_Role key rt n w) = (m, None)"
  using assms(1,2) strings_Trim_between [OF assms(3)] by (simp add: Role_miss)

subsection \<open>Errors leave the cache alone\<close>

text \<open>
  Claim C3. For each of the four queries: when the operation returns an error, the cache
  after the call is the cache before it, the queried field (or the entry of the queried
  port) is still unset, and the call has issued its query once. The next call therefore
  issues the query again, and when that is answered with one line (for Ports: one line
  that parses as a 32-bit integer) it succeeds, returns the value and stores it.
\<close>

theorem C3_error_leaves_cache_unchanged:
  "(Node_KubeVersion rt n w = ((s, Some e), w1) \<longrightarrow>
      cache w1 = cache w \<and> kubernetesVersion (cache w1) = [] \<and>
      issued w1 = issued w @ [kubeVersionQuery n] \<and>
      (rt' (issued w1) (kubeVersionQuery n) = ([l], None) \<longrightarrow>
         Node_KubeVersion rt' n w1 =
           ((l, None), w1\<lparr>issued := issued w1 @ [kubeVersionQuery n],
                           cache := (cache w1)\<lparr>kubernetesVersion := l\<rparr>\<rparr>))) \<and>
   (Node_IP rt n w = ((s, Some e), w1) \<longrightarrow>
      cache w1 = cache w \<and> ip (cache w1) = [] \<and>
      issued w1 = issued w @ [ipQuery n] \<and>
      (rt' (issued w1) (ipQuery n) = ([l], None) \<longrightarrow>
         Node_IP rt' n w1 =
           ((l, None), w1\<lparr>issued := issued w1 @ [ipQuery n], cache := (cache w1)\<lparr>ip := l\<rparr>\<rparr>))) \<and>
   (Node_Role key rt n w = ((s, Some e), w1) \<longrightarrow>
      cache w1 = cache w \<and> role (cache w1) = [] \<and>
      issued w1 = issued w @ [roleQuery key n] \<and>
      (rt' (issued w1) (roleQuery key n) = ([l], None) \<longrightarrow>
         Node_Role key rt' n w1 =
           ((strings_Trim l [CHR 0x27], None),
            w1\<lparr>issued := issued w1 @ [roleQuery key n],
               cache := (cache w1)\<lparr>role := strings_Trim l [CHR 0x27]\<rparr>\<rparr>))) \<and>
   (Node_Ports rt n p w = ((hp, Some e), w1) \<longrightarrow>
      cache w1 = cache w \<and> snd (nodeCache_HostPort (cache w1) p) = False \<and>
      issued w1 = issued w @ [portQuery n p] \<and>
      (rt' (issued w1) (portQuery n p) = ([l], None) \<and> strconv_ParseInt l 32 = (i, None) \<longrightarrow>
         Node_Ports rt' n p w1 =
           ((word_of_int i, None),
            w1\<lparr>issued := issued w1 @ [portQuery n p],
               cache := (cache w1)\<lparr>ports :=
                 Some ((case ports (cache w1) of None \<Rightarrow> Map.empty | Some m \<Rightarrow> m)
                        (p \<mapsto> word_of_int i))\<rparr>\<rparr>)))"
proof (intro conjI impI)
  {
    assume a: "Node_KubeVersion rt n w = ((s, Some e), w1)"
    have o: "kubernetesVersion (cache w) = [] \<and> w1 = w\<lparr>issued := issued w @ [kubeVersionQuery n]\<rparr>"
      using KubeVersion_outcome [OF a] by simp
    then show "cache w1 = cache w" "kubernetesVersion (cache w1) = []"
      "issued w1 = issued w @ [kubeVersionQuery n]"
      by simp_all
    assume "rt' (issued w1) (kubeVersionQuery n) = ([l], None)"
    with o show "Node_KubeVersion rt' n w1 =
        ((l, None), w1\<lparr>issued := issued w1 @ [kubeVersionQuery n],
                        cache := (cache w1)\<lparr>kubernetesVersion := l\<rparr>\<rparr>)"
      by (simp add: KubeVersion_miss)
  }
  {
    assume a: "Node_IP rt n w = ((s, Some e), w1)"
    have o: "ip (cache w) = [] \<and> w1 = w\<lparr>issued := issued w @ [ipQuery n]\<rparr>"
      using IP_outcome [OF a] by simp
    then show "cache w1 = cache w" "ip (cache w1) = []" "issued w1 = issued w @ [ipQuery n]"
      by simp_all
    assume "rt' (issued w1) (ipQuery n) = ([l], None)"
    with o show "Node_IP rt' n w1 =
        ((l, None), w1\<lparr>issued := issued w1 @ [ipQuery n], cache := (cache w1)\<lparr>ip := l\<rparr>\<rparr>)"
      by (simp add: IP_miss)
  }
  {
    assume a: "Node_Role key rt n w = ((s, Some e), w1)"
    have o: "role (cache w) = [] \<and> w1 = w\<lparr>issued := issued w @ [roleQuery key n]\<rparr>"
      using Role_outcome [OF a] by simp
    then show "cache w1 = cache w" "role (cache w1) = []"
      "issued w1 = issued w @ [roleQuery key n]"
      by simp_all
    assume "rt' (issued w1) (roleQuery key n) = ([l], None)"
    with o show "Node_Role key rt' n w1 =
        ((strings_Trim l [CHR 0x27], None),
         w1\<lparr>issued := issued w1 @ [roleQuery key n],
            cache := (cache w1)\<lparr>role := strings_Trim l [CHR 0x27]\<rparr>\<rparr>)"
      by (simp add: Role_miss)
  }
  {
    assume a: "Node_Ports rt n p w = ((hp, Some e), w1)"
    have o: "\<not> snd (nodeCache_HostPort (cache w) p) \<and> w1 = w\<lparr>issued := issued w @ [portQuery n p]\<rparr>"
      using Ports_outcome [OF a] by simp
    then show "cache w1 = cache w" "snd (nodeCache_HostPort (cache w1) p) = False"
      "issued w1 = issued w @ [portQuery n p]"
      by simp_all
    assume "rt' (issued w1) (portQuery n p) = ([l], None) \<and> strconv_ParseInt l 32 = (i, None)"
    with o show "Node_Ports rt' n p w1 =
        ((word_of_int i, None),
         w1\<lparr>issued := issued w1 @ [portQuery n p],
            cache := (cache w1)\<lparr>ports :=
              Some ((case ports (cache w1) of None \<Rightarrow> Map.empty | Some m \<Rightarrow> m)
                     (p \<mapsto> word_of_int i))\<rparr>\<rparr>)"
      by (simp add: Ports_miss)
  }
qed

text \<open>A fresh handle whose runtime first answers with no line and then with the
  version.\<close>

theorem C3_error_leaves_cache_unchanged_witness:
  "Node_KubeVersion retryScript node1 emptyWorld =
     (([], Some (Errorf ''file should only be one line, got %d lines'' [AInt 0])),
      emptyWorld\<lparr>issued := [kubeVersionQuery node1]\<rparr>) \<and>
   cache (emptyWorld\<lparr>issued := [kubeVersionQuery node1]\<rparr>) = cache emptyWorld \<and>
   Node_KubeVersion retryScript node1 (emptyWorld\<lparr>issued := [kubeVersionQuery node1]\<rparr>) =
     ((''v1.14.2'', None),
      emptyWorld\<lparr>issued := [kubeVersionQuery node1, kubeVersionQuery node1],
                 cache := (cache emptyWorld)\<lparr>kubernetesVersion := ''v1.14.2''\<rparr>\<rparr>)"
proof -
  have first: "Node_KubeVersion retryScript node1 emptyWorld =
     (([], Some (Errorf ''file should only be one line, got %d lines'' [AInt 0])),
      emptyWorld\<lparr>issued := [kubeVersionQuery node1]\<rparr>)"
    by (simp add: KubeVersion_miss [where lines = "[]" and err = None]
        retryScript_def stub_script_def emptyWorld_def)
  have retry: "retryScript (issued (emptyWorld\<lparr>issued := [kubeVersionQuery node1]\<rparr>))
      (kubeVersionQuery node1) = ([''v1.14.2''], None)"
    by (simp add: retryScript_def stub_script_def)
  show ?thesis
    using first retry
      C3_error_leaves_cache_unchanged [of retryScript node1 emptyWorld "[]"
        "Errorf ''file should only be one line, got %d lines'' [AInt 0]"
        "emptyWorld\<lparr>issued := [kubeVersionQuery node1]\<rparr>" retryScript "''v1.14.2''"]
    by (simp add: emptyWorld_def)
qed

subsection \<open>Calls that do not overlap\<close>

text \<open>Across calls that run one after the other, a field that is set keeps its value,
  whatever the runtime answers.\<close>

lemma cache_le_refl: "cache_le c c"
  by (simp add: cache_le_def)

lemma cache_le_trans: "cache_le a b \<Longrightarrow> cache_le b c \<Longrightarrow> cache_le a c"
  unfolding cache_le_def by metis

lemma KubeVersion_cache_le: "cache_le (cache w) (cache (snd (Node_KubeVersion rt n w)))"
proof (cases "kubernetesVersion (cache w) = []")
  case True
  obtain lines err where "rt (issued w) (kubeVersionQuery n) = (lines, err)"
    by (cases "rt (issued w) (kubeVersionQuery n)")
  with True show ?thesis
    by (simp add: KubeVersion_miss cache_le_def HostPort_True_iff split: option.splits)
next
  case False
  then show ?thesis by (simp add: KubeVersion_hit cache_le_refl)
qed

lemma IP_cache_le: "cache_le (cache w) (cache (snd (Node_IP rt n w)))"
proof (cases "ip (cache w) = []")
  case True
  obtain lines err where "rt (issued w) (ipQuery n) = (lines, err)"
    by (cases "rt (issued w) (ipQuery n)")
  with True show ?thesis
    by (simp add: IP_miss cache_le_def HostPort_True_iff split: option.splits)
next
  case False
  then show ?thesis by (simp add: IP_hit cache_le_refl)
qed

lemma Role_cache_le: "cache_le (cache w) (cache (snd (Node_Role key rt n w)))"
proof (cases "role (cache w) = []")
  case True
  obtain lines err where "rt (issued w) (roleQuery key n) = (lines, err)"
    by (cases "rt (issued w) (roleQuery key n)")
  with True show ?thesis
    by (simp add: Role_miss cache_le_def HostPort_True_iff split: option.splits)
next
  case False
  then show ?thesis by (simp add: Role_hit cache_le_refl)
qed

lemma Ports_cache_le: "cache_le (cache w) (cache (snd (Node_Ports rt n p w)))"
proof (cases "snd (nodeCache_HostPort (cache w) p)")
  case False
  obtain lines err where "rt (issued w) (portQuery n p) = (lines, err)"
    by (cases "rt (issued w) (portQuery n p)")
  moreover have "\<forall>m. ports (cache w) = Some m \<longrightarrow> m p = None"
    using False by (auto simp: HostPort_snd_iff)
  ultimately show ?thesis
    using False
    by (auto simp add: Ports_miss cache_le_def HostPort_True_iff split: option.splits)
next
  case True
  then obtain v where "nodeCache_HostPort (cache w) p = (v, True)"
    by (cases "nodeCache_HostPort (cache w) p") simp
  then show ?thesis by (simp add: Ports_hit cache_le_refl)
qed

lemma other_ops_cache:
  "cache (snd (Node_CopyTo rt n s d w)) = cache w"
  "cache (snd (Node_CopyFrom rt n s d w)) = cache w"
  "cache (snd (Node_WriteFile rt n d c w)) = cache w"
  "cache (snd (Node_ImageInspect rt n i w)) = cache w"
  "cache (snd (Node_LoadImageArchive rt n i w)) = cache w"
  by (simp_all add: Node_CopyTo_def Node_CopyFrom_def Node_WriteFile_def Node_ImageInspect_def
      Node_LoadImageArchive_def call_def Let_def split: prod.splits)

lemma exec_op_cache_le: "cache_le (cache w) (cache (exec_op key rt n x w))"
  by (cases x)
    (simp_all add: KubeVersion_cache_le IP_cache_le Role_cache_le Ports_cache_le other_ops_cache
      cache_le_refl)

lemma run_ops_cache_le: "cache_le (cache w) (cache (run_ops key rt n xs w))"
proof (induction xs arbitrary: w)
  case Nil
  show ?case by (simp add: cache_le_refl)
next
  case (Cons x xs)
  have "cache_le (cache w) (cache (exec_op key rt n x w))"
    by (rule exec_op_cache_le)
  moreover have "cache_le (cache (exec_op key rt n x w)) (cache (run_ops key rt n xs (exec_op key rt n x w)))"
    by (rule Cons.IH)
  ultimately show ?case
    by (simp add: cache_le_trans)
qed

subsection \<open>Steps and schedules\<close>

text \<open>A call that takes its three steps with no other call in between does what the
  operation of the handle does, and calls that run one after the other are one schedule
  among the others.\<close>

lemma solo_KubeVersion:
  "solo key rt n KubeVersion w =
     (Returned KubeVersion (RetStr (fst (fst (Node_KubeVersion rt n w))))
        (snd (fst (Node_KubeVersion rt n w))), snd (Node_KubeVersion rt n w))"
  by (simp add: solo_def Node_KubeVersion_def Let_def split: prod.splits)

lemma solo_IP:
  "solo key rt n IP w =
     (Returned IP (RetStr (fst (fst (Node_IP rt n w)))) (snd (fst (Node_IP rt n w))),
      snd (Node_IP rt n w))"
  by (simp add: solo_def Node_IP_def Let_def split: prod.splits)

lemma solo_Role:
  "solo key rt n Role w =
     (Returned Role (RetStr (fst (fst (Node_Role key rt n w)))) (snd (fst (Node_Role key rt n w))),
      snd (Node_Role key rt n w))"
  by (simp add: solo_def Node_Role_def Let_def split: prod.splits)

lemma solo_Ports:
  "solo key rt n (Ports p) w =
     (Returned (Ports p) (RetPort (fst (fst (Node_Ports rt n p w)))) (snd (fst (Node_Ports rt n p w))),
      snd (Node_Ports rt n p w))"
  by (simp add: solo_def Node_Ports_def Let_def split: prod.splits)

lemma solo_CopyTo:
  "solo key rt n (CopyTo source dest) w =
     (Returned (CopyTo source dest) RetNone (fst (Node_CopyTo rt n source dest w)),
      snd (Node_CopyTo rt n source dest w))"
  by (simp add: solo_def split: prod.splits)

lemma solo_CopyFrom:
  "solo key rt n (CopyFrom source dest) w =
     (Returned (CopyFrom source dest) RetNone (fst (Node_CopyFrom rt n source dest w)),
      snd (Node_CopyFrom rt n source dest w))"
  by (simp add: solo_def split: prod.splits)

lemma solo_WriteFile:
  "solo key rt n (WriteFile dest content) w =
     (Returned (WriteFile dest content) RetNone (fst (Node_WriteFile rt n dest content w)),
      snd (Node_WriteFile rt n dest content w))"
  by (simp add: solo_def Node_WriteFile_def Let_def split: prod.splits)

lemma solo_ImageInspect:
  "solo key rt n (ImageInspect i) w =
     (Returned (ImageInspect i) (RetLines (fst (fst (Node_ImageInspect rt n i w))))
        (snd (fst (Node_ImageInspect rt n i w))), snd (Node_ImageInspect rt n i w))"
  by (simp add: solo_def split: prod.splits)

lemma solo_LoadImageArchive:
  "solo key rt n (LoadImageArchive img) w =
     (Returned (LoadImageArchive img) RetNone (fst (Node_LoadImageArchive rt n img w)),
      snd (Node_LoadImageArchive rt n img w))"
  by (simp add: solo_def split: prod.splits)

lemma exec_op_solo: "exec_op key rt n x w = snd (solo key rt n x w)"
  by (cases x)
    (simp_all add: solo_KubeVersion solo_IP solo_Role solo_Ports solo_CopyTo solo_CopyFrom
      solo_WriteFile solo_ImageInspect solo_LoadImageArchive)

lemma solo_Returned: "\<exists>r e. fst (solo key rt n x w) = Returned x r e"
  by (cases x)
    (simp_all add: solo_KubeVersion solo_IP solo_Role solo_Ports solo_CopyTo solo_CopyFrom
      solo_WriteFile solo_ImageInspect solo_LoadImageArchive)

lemma run_sched_append:
  "run_sched key rt n (s1 @ s2) cfg = run_sched key rt n s2 (run_sched key rt n s1 cfg)"
proof (induction s1 arbitrary: cfg)
  case Nil
  show ?case by simp
next
  case (Cons i s1)
  obtain w pcs where cfg: "cfg = (w, pcs)" by (cases cfg)
  show ?case
    by (simp add: cfg Cons.IH split: prod.splits)
qed

lemma run_sched_three:
  assumes "i < length pcs" and "pcs ! i = Start x"
  shows "run_sched key rt n [i, i, i] (w, pcs) =
    (snd (solo key rt n x w), pcs[i := fst (solo key rt n x w)])"
  using assms by (simp add: solo_def Let_def split: prod.splits)

lemma run_sched_sequential:
  "fst (run_sched key rt n (seq_sched (length done) (length xs)) (w, done @ map Start xs)) =
     run_ops key rt n xs w"
proof (induction xs arbitrary: w "done")
  case Nil
  show ?case by (simp add: seq_sched_def)
next
  case (Cons x xs)
  let ?i = "length done"
  let ?p = "fst (solo key rt n x w)"
  let ?w = "snd (solo key rt n x w)"
  have "[?i..<?i + length (x # xs)] = ?i # [Suc ?i..<Suc ?i + length xs]"
    by (subst upt_rec) simp
  then have sched: "seq_sched ?i (length (x # xs)) =
      [?i, ?i, ?i] @ seq_sched (length (done @ [?p])) (length xs)"
    by (simp add: seq_sched_def del: upt_Suc)
  have one: "run_sched key rt n [?i, ?i, ?i] (w, done @ map Start (x # xs)) =
      (?w, (done @ [?p]) @ map Start xs)"
    using run_sched_three [of ?i "done @ map Start (x # xs)" x key rt n w]
    by (simp add: nth_append)
  have w: "?w = exec_op key rt n x w"
    by (simp add: exec_op_solo)
  show ?case
    unfolding sched run_sched_append one Cons.IH [of "done @ [?p]" ?w]
    by (simp add: w)
qed

lemma run_ops_is_schedule:
  "run_ops key rt n xs w =
     fst (run_sched key rt n (seq_sched 0 (length xs)) (w, map Start xs))"
  using run_sched_sequential [of key rt n "[]" xs w] by simp

text \<open>Against an immutable runtime every call holds the fact as its answer, and the cache
  holds what it held at the start or the value stored for the fact.\<close>

lemma field_Ports_HostPort:
  "nodeCache_HostPort c p = (v, True) \<longleftrightarrow> field (Ports p) c = Some (RetPort v)"
  by (auto simp add: nodeCache_HostPort_def split: option.splits)

lemma field_Ports_miss:
  "\<not> snd (nodeCache_HostPort c p) \<longleftrightarrow> field (Ports p) c = None"
  by (auto simp add: nodeCache_HostPort_def split: option.splits)

lemma begin_hit:
  assumes "is_query x" and "field x (cache w) = Some r"
  shows "op_begin rt n x w = (Returned x r None, w)"
proof (cases x)
  case (Ports p)
  with assms obtain v where "r = RetPort v" "nodeCache_HostPort (cache w) p = (v, True)"
    by (auto simp add: nodeCache_HostPort_def split: option.splits)
  with Ports show ?thesis by simp
qed (use assms in \<open>auto simp add: nodeCache_KubeVersion_def nodeCache_IP_def nodeCache_Role_def
      split: if_splits\<close>)

lemma begin_miss:
  assumes "is_query x" and "field x (cache w) = None"
  shows "op_begin rt n x w = (Missed x, w)"
proof (cases x)
  case (Ports p)
  with assms have "\<not> snd (nodeCache_HostPort (cache w) p)"
    by (simp add: field_Ports_miss)
  with Ports show ?thesis by (auto split: prod.splits)
qed (use assms in \<open>auto simp add: nodeCache_KubeVersion_def nodeCache_IP_def nodeCache_Role_def
      split: if_splits\<close>)

lemma begin_other:
  assumes "\<not> is_query x" and "op_begin rt n x w = (p', w')"
  shows "cache w' = cache w \<and> (\<exists>d c. p' = Mkdired d c) \<or>
         cache w' = cache w \<and> (\<exists>r e. p' = Returned x r e)"
proof (cases x)
  case (CopyTo s d)
  with assms show ?thesis
    using other_ops_cache(1) [of rt n s d w] by (auto split: prod.splits)
next
  case (CopyFrom s d)
  with assms show ?thesis
    using other_ops_cache(2) [of rt n s d w] by (auto split: prod.splits)
next
  case (WriteFile d c)
  with assms show ?thesis
    by (auto simp add: call_def Let_def split: prod.splits if_splits)
next
  case (ImageInspect i)
  with assms show ?thesis
    using other_ops_cache(4) [of rt n i w] by (auto split: prod.splits)
next
  case (LoadImageArchive i)
  with assms show ?thesis
    using other_ops_cache(5) [of rt n i w] by (auto split: prod.splits)
qed (use assms in auto)

lemma query_step:
  assumes "is_query x"
  shows "op_query key (immutable facts) n x w =
    (Answered x (facts (query_of key n x)), w\<lparr>issued := issued w @ [query_of key n x]\<rparr>)"
  using assms
  by (cases x)
    (simp_all add: call_def immutable_def Node_Command_def kubeVersionQuery_def ipQuery_def
      portQuery_def roleQuery_def Let_def)

lemma finish_result:
  assumes "is_query x" and "op_finish key x answer w = (p', w')"
  shows "(\<exists>r. stored x answer = Some r \<and> p' = Returned x r None \<and>
            field x (cache w') = shown r \<and>
            (\<forall>y. y \<noteq> x \<longrightarrow> field y (cache w') = field y (cache w))) \<or>
         (\<exists>r e. stored x answer = None \<and> p' = Returned x r (Some e) \<and> w' = w)"
proof -
  obtain lines err where a: "answer = (lines, err)" by (cases answer)
  show ?thesis
  proof (cases x)
    case KubeVersion
    have "\<And>y. y \<noteq> KubeVersion \<Longrightarrow>
        field y ((cache w)\<lparr>kubernetesVersion := lines ! 0\<rparr>) = field y (cache w)"
      by (case_tac y) simp_all
    with KubeVersion assms a show ?thesis
      by (auto simp add: errors_Wrap_def errors_Errorf_def nodeCache_set_def Let_def
          split: if_splits option.splits)
  next
    case IP
    have "\<And>y. y \<noteq> IP \<Longrightarrow> field y ((cache w)\<lparr>ip := lines ! 0\<rparr>) = field y (cache w)"
      by (case_tac y) simp_all
    with IP assms a show ?thesis
      by (auto simp add: errors_Wrap_def errors_Errorf_def nodeCache_set_def Let_def
          split: if_splits option.splits)
  next
    case Role
    have "\<And>y v. y \<noteq> Role \<Longrightarrow> field y ((cache w)\<lparr>role := v\<rparr>) = field y (cache w)"
      by (case_tac y) simp_all
    with Role assms a show ?thesis
      by (auto simp add: errors_Wrapf_def errors_Errorf_def nodeCache_set_def Let_def
          split: if_splits option.splits)
  next
    case (Ports p)
    have "\<And>y v. y \<noteq> Ports p \<Longrightarrow>
        field y ((cache w)\<lparr>ports :=
          Some ((case ports (cache w) of None \<Rightarrow> Map.empty | Some m \<Rightarrow> m)(p \<mapsto> v))\<rparr>) =
        field y (cache w)"
      by (case_tac y) (auto split: option.splits)
    with Ports assms a show ?thesis
      by (auto simp add: errors_Wrap_def errors_Errorf_def nodeCache_set_def Let_def
          split: if_splits option.splits prod.splits)
  qed (use assms in auto)
qed

lemma field_shown: "field x c = Some v \<Longrightarrow> shown v = Some v"
  by (cases x) (auto split: if_splits option.splits)

lemma shown_cases: "shown r = None \<or> shown r = Some r"
  by (cases r) auto

lemma query_other: "\<not> is_query x \<Longrightarrow> op_query key rt n x w = (Missed x, w)"
  by (cases x) simp_all

lemma finish_other: "\<not> is_query x \<Longrightarrow> op_finish key x answer w = (Answered x answer, w)"
  by (cases x) simp_all

lemma cache_ok_Some:
  "cache_ok key n facts c0 c \<Longrightarrow> is_query x \<Longrightarrow> field x c0 = Some v \<Longrightarrow> field x c = Some v"
  by (auto simp add: cache_ok_def split: option.splits)

lemma cache_ok_None:
  "cache_ok key n facts c0 c \<Longrightarrow> is_query x \<Longrightarrow> field x c0 = None \<Longrightarrow>
   field x c = None \<or> field x c = stored x (facts (query_of key n x))"
  by (auto simp add: cache_ok_def split: option.splits)

lemma step_inv:
  assumes good: "good key n facts c0 p"
    and ok: "cache_ok key n facts c0 (cache w)"
    and st: "step key (immutable facts) n p w = (p', w')"
  shows "good key n facts c0 p' \<and> cache_ok key n facts c0 (cache w') \<and>
         (\<forall>y v. field y (cache w) = Some v \<longrightarrow> field y (cache w') = Some v)"
proof (cases p)
  case (Start x)
  show ?thesis
  proof (cases "is_query x")
    case q: True
    show ?thesis
    proof (cases "field x (cache w)")
      case None
      then have r: "p' = Missed x" "w' = w"
        using st Start q by (simp_all add: begin_miss)
      have "field x c0 = None"
        using cache_ok_Some [OF ok q] None by (cases "field x c0") auto
      with r ok show ?thesis by simp
    next
      case (Some r)
      then have r: "p' = Returned x r None" "w' = w"
        using st Start q by (simp_all add: begin_hit)
      have "field x c0 = Some r \<or> field x c0 = None \<and> stored x (facts (query_of key n x)) = Some r"
        using cache_ok_Some [OF ok q] cache_ok_None [OF ok q] Some
        by (cases "field x c0") auto
      with r ok show ?thesis by simp
    qed
  next
    case False
    then show ?thesis
      using begin_other [of x "immutable facts" n w p' w'] st Start ok by auto
  qed
next
  case (Missed x)
  show ?thesis
  proof (cases "is_query x")
    case True
    then have "p' = Answered x (facts (query_of key n x))" "cache w' = cache w"
      using st Missed by (auto simp add: query_step)
    with good Missed ok show ?thesis by simp
  next
    case False
    then have "p' = Missed x" "w' = w"
      using st Missed by (simp_all add: query_other)
    with good Missed ok show ?thesis by simp
  qed
next
  case (Answered x answer)
  show ?thesis
  proof (cases "is_query x")
    case q: True
    have c0: "field x c0 = None" and ans: "answer = facts (query_of key n x)"
      using good Answered by simp_all
    have fin: "op_finish key x answer w = (p', w')"
      using st Answered by simp
    from finish_result [OF q fin] show ?thesis
    proof (elim disjE exE conjE)
      fix r
      assume r: "stored x answer = Some r" "p' = Returned x r None"
        and fx: "field x (cache w') = shown r"
        and fy: "\<forall>y. y \<noteq> x \<longrightarrow> field y (cache w') = field y (cache w)"
      have g: "good key n facts c0 p'"
        using r c0 ans by simp
      have mono: "\<forall>y v. field y (cache w) = Some v \<longrightarrow> field y (cache w') = Some v"
      proof (intro allI impI)
        fix y v
        assume v: "field y (cache w) = Some v"
        show "field y (cache w') = Some v"
        proof (cases "y = x")
          case True
          with v cache_ok_None [OF ok q c0] r ans have "r = v" by auto
          with True fx v field_shown [of x "cache w" v] show ?thesis by simp
        next
          case False
          with fy v show ?thesis by simp
        qed
      qed
      have okw: "cache_ok key n facts c0 (cache w')"
        unfolding cache_ok_def
      proof (intro allI impI)
        fix y
        assume qy: "is_query y"
        show "case field y c0 of
            None \<Rightarrow> field y (cache w') = None \<or>
                     field y (cache w') = stored y (facts (query_of key n y))
          | Some v \<Rightarrow> field y (cache w') = Some v"
        proof (cases "y = x")
          case True
          with c0 fx r ans shown_cases [of r] show ?thesis by auto
        next
          case False
          with fy have "field y (cache w') = field y (cache w)" by simp
          with ok qy show ?thesis by (auto simp add: cache_ok_def split: option.splits)
        qed
      qed
      from g okw mono show ?thesis by simp
    next
      fix r e
      assume "stored x answer = None" "p' = Returned x r (Some e)" "w' = w"
      with ok show ?thesis by simp
    qed
  next
    case False
    then have "p' = Answered x answer" "w' = w"
      using st Answered by (simp_all add: finish_other)
    with good Answered ok show ?thesis by simp
  qed
next
  case (Mkdired d c)
  then have "\<exists>e. p' = Returned (WriteFile d c) RetNone e" "cache w' = cache w"
    using st by (auto simp add: call_def Let_def split: prod.splits)
  with ok show ?thesis by auto
next
  case (Returned x r e)
  then have "p' = p" "w' = w"
    using st by simp_all
  with good ok show ?thesis by simp
qed

lemma run_sched_inv:
  assumes "\<forall>p \<in> set pcs. good key n facts c0 p"
    and "cache_ok key n facts c0 (cache w)"
    and "run_sched key (immutable facts) n sched (w, pcs) = (w', pcs')"
  shows "(\<forall>p \<in> set pcs'. good key n facts c0 p) \<and> cache_ok key n facts c0 (cache w') \<and>
         (\<forall>y v. field y (cache w) = Some v \<longrightarrow> field y (cache w') = Some v)"
  using assms
proof (induction sched arbitrary: w pcs)
  case Nil
  then show ?case by simp
next
  case (Cons i sched)
  show ?case
  proof (cases "i < length pcs")
    case True
    obtain p1 w1 where st: "step key (immutable facts) n (pcs ! i) w = (p1, w1)"
      by (cases "step key (immutable facts) n (pcs ! i) w")
    have gi: "good key n facts c0 (pcs ! i)"
      using Cons.prems(1) True by simp
    note inv = step_inv [OF gi Cons.prems(2) st]
    have g1: "\<forall>p \<in> set (pcs[i := p1]). good key n facts c0 p"
      using inv Cons.prems(1) set_update_subset_insert [of pcs i p1] by auto
    have run: "run_sched key (immutable facts) n sched (w1, pcs[i := p1]) = (w', pcs')"
      using Cons.prems(3) True st by simp
    from Cons.IH [OF g1 _ run] inv show ?thesis by simp
  next
    case False
    with Cons.prems(3) have "run_sched key (immutable facts) n sched (w, pcs) = (w', pcs')"
      by simp
    from Cons.IH [OF Cons.prems(1,2) this] show ?thesis .
  qed
qed

lemma fresh_good: "fresh pcs \<Longrightarrow> \<forall>p \<in> set pcs. good key n facts c0 p"
proof
  fix p
  assume "fresh pcs" "p \<in> set pcs"
  then have "is_Start p" by (simp add: fresh_def)
  then show "good key n facts c0 p" by (cases p) simp_all
qed

lemma cache_ok_refl: "cache_ok key n facts c c"
  by (simp add: cache_ok_def split: option.splits)

lemma overlap_keeps_fields:
  assumes "fresh pcs"
    and "run_sched key (immutable facts) n s1 (w0, pcs) = (w1, pcs1)"
    and "run_sched key (immutable facts) n s2 (w1, pcs1) = (w2, pcs2)"
  shows "(\<forall>p \<in> set pcs1. good key n facts (cache w0) p) \<and>
         cache_ok key n facts (cache w0) (cache w1) \<and>
         (\<forall>y v. field y (cache w1) = Some v \<longrightarrow> field y (cache w2) = Some v)"
proof -
  have one: "(\<forall>p \<in> set pcs1. good key n facts (cache w0) p) \<and>
      cache_ok key n facts (cache w0) (cache w1)"
    using run_sched_inv [OF fresh_good [OF assms(1)] cache_ok_refl assms(2)] by simp
  then have "\<forall>y v. field y (cache w1) = Some v \<longrightarrow> field y (cache w2) = Some v"
    using run_sched_inv [of pcs1 key n facts "cache w0" w1 s2 w2 pcs2] assms(3) by simp
  with one show ?thesis by simp
qed

lemma overlap_reuses_value:
  assumes "fresh pcs" and "is_query x"
    and "run_sched key (immutable facts) n s1 (w0, pcs) = (w1, pcs1)"
    and "i < length pcs1" and "pcs1 ! i = Returned x r None"
    and "field x (cache w1) \<noteq> None"
    and "run_sched key (immutable facts) n s2 (w1, pcs1) = (w2, pcs2)"
  shows "step key rt n (Start x) w2 = (Returned x r None, w2)"
proof -
  note inv = overlap_keeps_fields [OF assms(1,3,7)]
  have "good key n facts (cache w0) (pcs1 ! i)"
    using inv assms(4) by simp
  then have g: "field x (cache w0) = Some r \<or>
      field x (cache w0) = None \<and> stored x (facts (query_of key n x)) = Some r"
    using assms(2,5) by simp
  obtain v where v: "field x (cache w1) = Some v"
    using assms(6) by auto
  have ok: "cache_ok key n facts (cache w0) (cache w1)"
    using inv by simp
  have "v = r"
    using g v cache_ok_Some [OF ok assms(2)] cache_ok_None [OF ok assms(2)] by auto
  with v inv have "field x (cache w2) = Some r" by simp
  then show ?thesis
    using assms(2) by (simp add: begin_hit)
qed

lemma twoCalls_first:
  "run_sched ''io.k8s.sigs.kind.role'' (immutable oneVersion) node1 [0, 1, 0, 1, 0] twoCalls =
     (emptyWorld\<lparr>issued := [kubeVersionQuery node1, kubeVersionQuery node1],
                 cache := (cache emptyWorld)\<lparr>kubernetesVersion := ''v1.14.2''\<rparr>\<rparr>,
      [Returned KubeVersion (RetStr ''v1.14.2'') None,
       Answered KubeVersion ([''v1.14.2''], None)])"
  by (simp add: twoCalls_def immutable_def oneVersion_def emptyWorld_def call_def Let_def
      nodeCache_KubeVersion_def nodeCache_set_def Node_Command_def kubeVersionQuery_def)

subsection \<open>Fields of the cache are set once\<close>

text \<open>
  Claim C9, as stated, says that no operation overwrites a field that is set with another
  value. It is false for calls that overlap: two calls of \<^verbatim>\<open>KubeVersion\<close> both miss,
  the runtime answers the first with \<^verbatim>\<open>vA\<close> and the second with \<^verbatim>\<open>vB\<close>, the
  first stores \<^verbatim>\<open>vA\<close>, and the second, which does not look at the field again, stores
  \<^verbatim>\<open>vB\<close> over it.
\<close>

theorem C9_overlapping_calls_overwrite:
  "kubernetesVersion (cache (fst (run_sched ''io.k8s.sigs.kind.role'' twoVersions node1
      [0, 1, 0, 1, 0] (emptyWorld, [Start KubeVersion, Start KubeVersion])))) = ''vA'' \<and>
   kubernetesVersion (cache (fst (run_sched ''io.k8s.sigs.kind.role'' twoVersions node1
      [0, 1, 0, 1, 0, 1] (emptyWorld, [Start KubeVersion, Start KubeVersion])))) = ''vB''"
  by (simp add: twoVersions_def stub_script_def emptyWorld_def call_def Let_def
      nodeCache_KubeVersion_def nodeCache_set_def Node_Command_def)

text \<open>
  Claim C9, amended. A field of the cache that is set (a non-empty version, address or
  role; an entry of the ports map) keeps its value (a) across every sequence of calls in
  which no two calls overlap, from any state and against any runtime, such a sequence
  being the schedule \<open>seq_sched\<close>; and (b) across every schedule of calls that overlap,
  from a state in which no call has begun, when the answers of the runtime do not change.
  So a field changes at most once, from unset to set, unless calls overlap and the runtime
  answers them differently.
\<close>

theorem C9_set_fields_keep_their_value:
  "run_ops key rt n xs w = fst (run_sched key rt n (seq_sched 0 (length xs)) (w, map Start xs)) \<and>
   (kubernetesVersion (cache w) \<noteq> [] \<longrightarrow>
      kubernetesVersion (cache (run_ops key rt n xs w)) = kubernetesVersion (cache w)) \<and>
   (ip (cache w) \<noteq> [] \<longrightarrow> ip (cache (run_ops key rt n xs w)) = ip (cache w)) \<and>
   (role (cache w) \<noteq> [] \<longrightarrow> role (cache (run_ops key rt n xs w)) = role (cache w)) \<and>
   (nodeCache_HostPort (cache w) p = (v, True) \<longrightarrow>
      nodeCache_HostPort (cache (run_ops key rt n xs w)) p = (v, True)) \<and>
   (fresh pcs \<and>
    run_sched key (immutable facts) n s1 (w0, pcs) = (w1, pcs1) \<and>
    run_sched key (immutable facts) n s2 (w1, pcs1) = (w2, pcs2) \<longrightarrow>
      (kubernetesVersion (cache w1) \<noteq> [] \<longrightarrow>
         kubernetesVersion (cache w2) = kubernetesVersion (cache w1)) \<and>
      (ip (cache w1) \<noteq> [] \<longrightarrow> ip (cache w2) = ip (cache w1)) \<and>
      (role (cache w1) \<noteq> [] \<longrightarrow> role (cache w2) = role (cache w1)) \<and>
      (\<forall>q u. nodeCache_HostPort (cache w1) q = (u, True) \<longrightarrow>
         nodeCache_HostPort (cache w2) q = (u, True)))"
proof (intro conjI impI allI)
  show "run_ops key rt n xs w = fst (run_sched key rt n (seq_sched 0 (length xs)) (w, map Start xs))"
    by (rule run_ops_is_schedule)
  have le: "cache_le (cache w) (cache (run_ops key rt n xs w))"
    by (rule run_ops_cache_le)
  show "kubernetesVersion (cache w) \<noteq> [] \<Longrightarrow>
      kubernetesVersion (cache (run_ops key rt n xs w)) = kubernetesVersion (cache w)"
    using le by (simp add: cache_le_def)
  show "ip (cache w) \<noteq> [] \<Longrightarrow> ip (cache (run_ops key rt n xs w)) = ip (cache w)"
    using le by (simp add: cache_le_def)
  show "role (cache w) \<noteq> [] \<Longrightarrow> role (cache (run_ops key rt n xs w)) = role (cache w)"
    using le by (simp add: cache_le_def)
  show "nodeCache_HostPort (cache w) p = (v, True) \<Longrightarrow>
      nodeCache_HostPort (cache (run_ops key rt n xs w)) p = (v, True)"
    using le by (simp add: cache_le_def)
next
  assume a: "fresh pcs \<and>
    run_sched key (immutable facts) n s1 (w0, pcs) = (w1, pcs1) \<and>
    run_sched key (immutable facts) n s2 (w1, pcs1) = (w2, pcs2)"
  then have mono: "\<And>y v. field y (cache w1) = Some v \<Longrightarrow> field y (cache w2) = Some v"
    using overlap_keeps_fields [of pcs key facts n s1 w0 w1 pcs1 s2 w2 pcs2] by simp
  show "kubernetesVersion (cache w1) \<noteq> [] \<Longrightarrow>
      kubernetesVersion (cache w2) = kubernetesVersion (cache w1)"
    using mono [of KubeVersion "RetStr (kubernetesVersion (cache w1))"]
    by (simp split: if_splits)
  show "ip (cache w1) \<noteq> [] \<Longrightarrow> ip (cache w2) = ip (cache w1)"
    using mono [of IP "RetStr (ip (cache w1))"] by (simp split: if_splits)
  show "role (cache w1) \<noteq> [] \<Longrightarrow> role (cache w2) = role (cache w1)"
    using mono [of Role "RetStr (role (cache w1))"] by (simp split: if_splits)
  show "\<And>q u. nodeCache_HostPort (cache w1) q = (u, True) \<Longrightarrow>
      nodeCache_HostPort (cache w2) q = (u, True)"
    unfolding field_Ports_HostPort by (rule mono)
qed

text \<open>A handle whose cache is full, run against a runtime that would answer differently;
  and two overlapping calls of \<^verbatim>\<open>KubeVersion\<close> against a runtime that always answers
  \<^verbatim>\<open>v1.14.2\<close>, before and after the second call stores its value.\<close>

theorem C9_set_fields_keep_their_value_witness:
  "kubernetesVersion (cache (run_ops ''io.k8s.sigs.kind.role'' (stub_script [([''v9''], None)]) node1
      [KubeVersion, IP, Ports 6443, Role, Ports 80, WriteFile ''/kind/x'' ''y''] warmWorld)) = ''v1.14.2'' \<and>
   ip (cache (run_ops ''io.k8s.sigs.kind.role'' (stub_script [([''v9''], None)]) node1
      [KubeVersion, IP, Ports 6443, Role, Ports 80, WriteFile ''/kind/x'' ''y''] warmWorld)) = ''172.17.0.2'' \<and>
   role (cache (run_ops ''io.k8s.sigs.kind.role'' (stub_script [([''v9''], None)]) node1
      [KubeVersion, IP, Ports 6443, Role, Ports 80, WriteFile ''/kind/x'' ''y''] warmWorld)) = ''control-plane'' \<and>
   nodeCache_HostPort (cache (run_ops ''io.k8s.sigs.kind.role'' (stub_script [([''v9''], None)]) node1
      [KubeVersion, IP, Ports 6443, Role, Ports 80, WriteFile ''/kind/x'' ''y''] warmWorld)) 6443 = (32769, True) \<and>
   kubernetesVersion (cache (fst (run_sched ''io.k8s.sigs.kind.role'' (immutable oneVersion) node1
      [0, 1, 0, 1, 0] twoCalls))) = ''v1.14.2'' \<and>
   kubernetesVersion (cache (fst (run_sched ''io.k8s.sigs.kind.role'' (immutable oneVersion) node1
      ([0, 1, 0, 1, 0] @ [1]) twoCalls))) = ''v1.14.2''"
proof -
  let ?K = "''io.k8s.sigs.kind.role''"
  let ?xs = "[KubeVersion, IP, Ports 6443, Role, Ports 80, WriteFile ''/kind/x'' ''y'']"
  let ?after = "run_ops ?K (stub_script [([''v9''], None)]) node1 ?xs warmWorld"
  let ?c1 = "run_sched ?K (immutable oneVersion) node1 [0, 1, 0, 1, 0] twoCalls"
  let ?c2 = "run_sched ?K (immutable oneVersion) node1 [1] ?c1"
  note inst = C9_set_fields_keep_their_value [where key = ?K
      and rt = "stub_script [([''v9''], None)]" and n = node1 and xs = ?xs
      and w = warmWorld and p = 6443 and v = 32769
      and pcs = "[Start KubeVersion, Start KubeVersion]" and facts = oneVersion
      and ?s1.0 = "[0, 1, 0, 1, 0]" and ?w0.0 = emptyWorld and ?w1.0 = "fst ?c1"
      and ?pcs1.0 = "snd ?c1" and ?s2.0 = "[1]" and ?w2.0 = "fst ?c2" and ?pcs2.0 = "snd ?c2"]
  have warm: "kubernetesVersion (cache warmWorld) = ''v1.14.2''" "ip (cache warmWorld) = ''172.17.0.2''"
    "role (cache warmWorld) = ''control-plane''"
    "nodeCache_HostPort (cache warmWorld) 6443 = (32769, True)"
    by (simp_all add: warmWorld_def nodeCache_HostPort_def)
  note rest = inst [THEN conjunct2]
  have a1: "kubernetesVersion (cache ?after) = ''v1.14.2''"
    using rest [THEN conjunct1] warm(1) by (simp del: run_ops.simps)
  have a2: "ip (cache ?after) = ''172.17.0.2''"
    using rest [THEN conjunct2, THEN conjunct1] warm(2) by (simp del: run_ops.simps)
  have a3: "role (cache ?after) = ''control-plane''"
    using rest [THEN conjunct2, THEN conjunct2, THEN conjunct1] warm(3)
    by (simp del: run_ops.simps)
  have a4: "nodeCache_HostPort (cache ?after) 6443 = (32769, True)"
    using rest [THEN conjunct2, THEN conjunct2, THEN conjunct2, THEN conjunct1] warm(4)
    by (simp del: run_ops.simps)
  note overlap = rest [THEN conjunct2, THEN conjunct2, THEN conjunct2, THEN conjunct2]
  have hyp: "fresh [Start KubeVersion, Start KubeVersion] \<and>
      run_sched ?K (immutable oneVersion) node1 [0, 1, 0, 1, 0]
        (emptyWorld, [Start KubeVersion, Start KubeVersion]) = (fst ?c1, snd ?c1) \<and>
      run_sched ?K (immutable oneVersion) node1 [1] (fst ?c1, snd ?c1) = (fst ?c2, snd ?c2)"
    by (simp add: fresh_def twoCalls_def del: run_sched.simps)
  have v1: "kubernetesVersion (cache (fst ?c1)) = ''v1.14.2''"
    by (simp only: twoCalls_first) (simp add: emptyWorld_def)
  have "kubernetesVersion (cache (fst ?c1)) \<noteq> [] \<longrightarrow>
      kubernetesVersion (cache (fst ?c2)) = kubernetesVersion (cache (fst ?c1))"
    using overlap [THEN mp, OF hyp] by (rule conjunct1)
  with v1 have v2: "kubernetesVersion (cache (fst ?c2)) = ''v1.14.2''"
    by simp
  have app: "run_sched ?K (immutable oneVersion) node1 ([0, 1, 0, 1, 0] @ [1]) twoCalls = ?c2"
    by (rule run_sched_append)
  from a1 a2 a3 a4 v1 v2 show ?thesis
    unfolding app by (simp only: simp_thms)
qed

subsection \<open>Cached values are reused\<close>

text \<open>
  Claim C1, as stated, says that after a call has succeeded and set the field, every
  later call returns the same value and no other request is issued. It is false for calls
  that overlap: of three calls of \<^verbatim>\<open>KubeVersion\<close>, the first two both miss and both
  ask the runtime, the first returns \<^verbatim>\<open>vA\<close> and sets the field, the second then
  stores \<^verbatim>\<open>vB\<close>, and the third, begun after both, returns \<^verbatim>\<open>vB\<close>.
\<close>

theorem C1_overlapping_call_changes_the_value:
  "snd (run_sched ''io.k8s.sigs.kind.role'' twoVersions node1 [0, 1, 0, 1, 0]
      (emptyWorld, [Start KubeVersion, Start KubeVersion, Start KubeVersion])) =
     [Returned KubeVersion (RetStr ''vA'') None, Answered KubeVersion ([''vB''], None),
      Start KubeVersion] \<and>
   kubernetesVersion (cache (fst (run_sched ''io.k8s.sigs.kind.role'' twoVersions node1
      [0, 1, 0, 1, 0]
      (emptyWorld, [Start KubeVersion, Start KubeVersion, Start KubeVersion])))) = ''vA'' \<and>
   snd (run_sched ''io.k8s.sigs.kind.role'' twoVersions node1 [0, 1, 0, 1, 0, 1, 2]
      (emptyWorld, [Start KubeVersion, Start KubeVersion, Start KubeVersion])) =
     [Returned KubeVersion (RetStr ''vA'') None, Returned KubeVersion (RetStr ''vB'') None,
      Returned KubeVersion (RetStr ''vB'') None] \<and>
   issued (fst (run_sched ''io.k8s.sigs.kind.role'' twoVersions node1 [0, 1, 0, 1, 0, 1, 2]
      (emptyWorld, [Start KubeVersion, Start KubeVersion, Start KubeVersion]))) =
     [kubeVersionQuery node1, kubeVersionQuery node1]"
  by (simp add: twoVersions_def stub_script_def emptyWorld_def call_def Let_def
      nodeCache_KubeVersion_def nodeCache_set_def Node_Command_def kubeVersionQuery_def
      numeral_2_eq_2)

text \<open>
  Claim C1, amended. (a) When no two calls overlap: for KubeVersion, IP and Role, when a
  call returns a value with a nil error and the field of the cache is set afterwards,
  then after any further sequence of calls, against any runtimes, a call of the same
  operation returns the same value with a nil error and leaves the state as it is, so it
  issues no request; for Ports a call that returns a nil error always leaves the entry of
  its port set, and a later call with the same port returns the same host port in the
  same way. (b) When calls overlap and the answers of the runtime do not change: once a
  call of a query has returned a value with a nil error and the field is set, a call of
  the same query that begins at any later point returns that value with a nil error in
  its first step and leaves the state as it is. Calls that had begun before may still
  issue their own request.
\<close>

theorem C1_later_calls_reuse_the_value:
  "(Node_KubeVersion rt n w = ((s, None), w1) \<and> kubernetesVersion (cache w1) \<noteq> [] \<longrightarrow>
      Node_KubeVersion rt'' n (run_ops key rt' n xs w1) = ((s, None), run_ops key rt' n xs w1)) \<and>
   (Node_IP rt n w = ((s, None), w1) \<and> ip (cache w1) \<noteq> [] \<longrightarrow>
      Node_IP rt'' n (run_ops key rt' n xs w1) = ((s, None), run_ops key rt' n xs w1)) \<and>
   (Node_Role key rt n w = ((s, None), w1) \<and> role (cache w1) \<noteq> [] \<longrightarrow>
      Node_Role key rt'' n (run_ops key rt' n xs w1) = ((s, None), run_ops key rt' n xs w1)) \<and>
   (Node_Ports rt n p w = ((hp, None), w1) \<longrightarrow>
      Node_Ports rt'' n p (run_ops key rt' n xs w1) = ((hp, None), run_ops key rt' n xs w1)) \<and>
   run_ops key rt' n xs w1 =
     fst (run_sched key rt' n (seq_sched 0 (length xs)) (w1, map Start xs)) \<and>
   (fresh pcs \<and> is_query x \<and>
    run_sched key (immutable facts) n s1 (w0, pcs) = (w1', pcs1) \<and>
    i < length pcs1 \<and> pcs1 ! i = Returned x r None \<and> field x (cache w1') \<noteq> None \<and>
    run_sched key (immutable facts) n s2 (w1', pcs1) = (w2, pcs2) \<longrightarrow>
      step key (immutable facts) n (Start x) w2 = (Returned x r None, w2))"
proof (intro conjI impI)
  let ?w2 = "run_ops key rt' n xs w1"
  have le: "cache_le (cache w1) (cache ?w2)"
    by (rule run_ops_cache_le)
  {
    assume a: "Node_KubeVersion rt n w = ((s, None), w1) \<and> kubernetesVersion (cache w1) \<noteq> []"
    then have "kubernetesVersion (cache w1) = s"
      using KubeVersion_outcome [of rt n w s None w1] by auto
    with a le have "kubernetesVersion (cache ?w2) = s" "s \<noteq> []"
      by (auto simp: cache_le_def)
    then show "Node_KubeVersion rt'' n ?w2 = ((s, None), ?w2)"
      using KubeVersion_hit [of ?w2 rt'' n] by simp
  }
  {
    assume a: "Node_IP rt n w = ((s, None), w1) \<and> ip (cache w1) \<noteq> []"
    then have "ip (cache w1) = s"
      using IP_outcome [of rt n w s None w1] by auto
    with a le have "ip (cache ?w2) = s" "s \<noteq> []"
      by (auto simp: cache_le_def)
    then show "Node_IP rt'' n ?w2 = ((s, None), ?w2)"
      using IP_hit [of ?w2 rt'' n] by simp
  }
  {
    assume a: "Node_Role key rt n w = ((s, None), w1) \<and> role (cache w1) \<noteq> []"
    then have "role (cache w1) = s"
      using Role_outcome [of key rt n w s None w1] by auto
    with a le have "role (cache ?w2) = s" "s \<noteq> []"
      by (auto simp: cache_le_def)
    then show "Node_Role key rt'' n ?w2 = ((s, None), ?w2)"
      using Role_hit [of ?w2 key rt'' n] by simp
  }
  {
    assume a: "Node_Ports rt n p w = ((hp, None), w1)"
    then have "nodeCache_HostPort (cache w1) p = (hp, True)"
      using Ports_outcome [of rt n p w hp None w1] by auto
    with le have "nodeCache_HostPort (cache ?w2) p = (hp, True)"
      by (auto simp: cache_le_def)
    then show "Node_Ports rt'' n p ?w2 = ((hp, None), ?w2)"
      by (rule Ports_hit)
  }
  show "?w2 = fst (run_sched key rt' n (seq_sched 0 (length xs)) (w1, map Start xs))"
    by (rule run_ops_is_schedule)
  {
    assume "fresh pcs \<and> is_query x \<and>
      run_sched key (immutable facts) n s1 (w0, pcs) = (w1', pcs1) \<and>
      i < length pcs1 \<and> pcs1 ! i = Returned x r None \<and> field x (cache w1') \<noteq> None \<and>
      run_sched key (immutable facts) n s2 (w1', pcs1) = (w2, pcs2)"
    then show "step key (immutable facts) n (Start x) w2 = (Returned x r None, w2)"
      using overlap_reuses_value [of pcs x key facts n s1 w0 w1' pcs1 i r s2 w2 pcs2]
      by simp
  }
qed

text \<open>A fresh handle: the first call asks the runtime, the later one does not, although
  the runtime would answer with another version; and a third call after two overlapping
  ones against a runtime that always answers \<^verbatim>\<open>v1.14.2\<close>.\<close>

theorem C1_later_calls_reuse_the_value_witness:
  "Node_KubeVersion versionScript node1
     (run_ops ''io.k8s.sigs.kind.role'' versionScript node1 [KubeVersion, IP]
        (emptyWorld\<lparr>issued := [kubeVersionQuery node1],
                    cache := (cache emptyWorld)\<lparr>kubernetesVersion := ''v1.14.2''\<rparr>\<rparr>)) =
     ((''v1.14.2'', None),
      run_ops ''io.k8s.sigs.kind.role'' versionScript node1 [KubeVersion, IP]
        (emptyWorld\<lparr>issued := [kubeVersionQuery node1],
                    cache := (cache emptyWorld)\<lparr>kubernetesVersion := ''v1.14.2''\<rparr>\<rparr>)) \<and>
   step ''io.k8s.sigs.kind.role'' (immutable oneVersion) node1 (Start KubeVersion)
     (fst (run_sched ''io.k8s.sigs.kind.role'' (immutable oneVersion) node1
        ([0, 1, 0, 1, 0] @ [1]) twoCalls)) =
     (Returned KubeVersion (RetStr ''v1.14.2'') None,
      fst (run_sched ''io.k8s.sigs.kind.role'' (immutable oneVersion) node1
        ([0, 1, 0, 1, 0] @ [1]) twoCalls))"
proof -
  let ?K = "''io.k8s.sigs.kind.role''"
  let ?c1 = "run_sched ?K (immutable oneVersion) node1 [0, 1, 0, 1, 0] twoCalls"
  let ?c2 = "run_sched ?K (immutable oneVersion) node1 [1] ?c1"
  let ?w1 = "emptyWorld\<lparr>issued := [kubeVersionQuery node1],
                    cache := (cache emptyWorld)\<lparr>kubernetesVersion := ''v1.14.2''\<rparr>\<rparr>"
  note inst = C1_later_calls_reuse_the_value [where rt = versionScript and n = node1
      and w = emptyWorld and s = "''v1.14.2''" and ?w1.0 = ?w1 and rt'' = versionScript
      and key = ?K and rt' = versionScript and xs = "[KubeVersion, IP]" and p = 0 and hp = 0
      and pcs = "[Start KubeVersion, Start KubeVersion]" and x = KubeVersion
      and facts = oneVersion and ?s1.0 = "[0, 1, 0, 1, 0]" and ?w0.0 = emptyWorld
      and w1' = "fst ?c1" and ?pcs1.0 = "snd ?c1" and i = 0
      and r = "RetStr ''v1.14.2''" and ?s2.0 = "[1]" and ?w2.0 = "fst ?c2" and ?pcs2.0 = "snd ?c2"]
  have first: "Node_KubeVersion versionScript node1 emptyWorld = ((''v1.14.2'', None), ?w1) \<and>
      kubernetesVersion (cache ?w1) \<noteq> []"
    by (simp add: KubeVersion_miss [where lines = "[''v1.14.2'']" and err = None]
        versionScript_def stub_script_def emptyWorld_def)
  have a: "Node_KubeVersion versionScript node1
      (run_ops ?K versionScript node1 [KubeVersion, IP] ?w1) =
      ((''v1.14.2'', None), run_ops ?K versionScript node1 [KubeVersion, IP] ?w1)"
    by (rule inst [THEN conjunct1, THEN mp, OF first])
  note overlap = inst [THEN conjunct2, THEN conjunct2, THEN conjunct2, THEN conjunct2,
      THEN conjunct2]
  have ret: "snd ?c1 ! 0 = Returned KubeVersion (RetStr ''v1.14.2'') None \<and>
      0 < length (snd ?c1) \<and> field KubeVersion (cache (fst ?c1)) \<noteq> None"
    by (simp only: twoCalls_first) (simp add: emptyWorld_def)
  have hyp: "fresh [Start KubeVersion, Start KubeVersion] \<and> is_query KubeVersion \<and>
      run_sched ?K (immutable oneVersion) node1 [0, 1, 0, 1, 0]
        (emptyWorld, [Start KubeVersion, Start KubeVersion]) = (fst ?c1, snd ?c1) \<and>
      0 < length (snd ?c1) \<and> snd ?c1 ! 0 = Returned KubeVersion (RetStr ''v1.14.2'') None \<and>
      field KubeVersion (cache (fst ?c1)) \<noteq> None \<and>
      run_sched ?K (immutable oneVersion) node1 [1] (fst ?c1, snd ?c1) = (fst ?c2, snd ?c2)"
    using ret by (simp add: fresh_def twoCalls_def del: run_sched.simps)
  have b: "step ?K (immutable oneVersion) node1 (Start KubeVersion) (fst ?c2) =
      (Returned KubeVersion (RetStr ''v1.14.2'') None, fst ?c2)"
    by (rule overlap [THEN mp, OF hyp])
  have app: "run_sched ?K (immutable oneVersion) node1 ([0, 1, 0, 1, 0] @ [1]) twoCalls = ?c2"
    by (rule run_sched_append)
  from a b show ?thesis
    unfolding app by (simp only: simp_thms)
qed

text \<open>A field is set when it is not empty. A call that is answered with one empty line
  returns it with a nil error and leaves the field unset, so the next call asks again.\<close>

lemma KubeVersion_empty_line_not_cached:
  assumes "kubernetesVersion (cache w) = []"
    and "rt (issued w) (kubeVersionQuery n) = ([''''], None)"
  shows "Node_KubeVersion rt n w = (([], None), w\<lparr>issued := issued w @ [kubeVersionQuery n]\<rparr>)"
  using assms by (simp add: KubeVersion_miss)

subsection \<open>File and image transfer\<close>

lemma WriteFile_mkdir_fails:
  assumes "snd (rt (issued w) (mkdirRequest n dest)) = Some e"
  shows "Node_WriteFile rt n dest content w =
    (Some (Wrapf e ''failed to create directory %s'' [AStr dest]),
     w\<lparr>issued := issued w @ [mkdirRequest n dest]\<rparr>)"
proof -
  obtain ls where "rt (issued w) (mkdirRequest n dest) = (ls, Some e)"
    using assms by (cases "rt (issued w) (mkdirRequest n dest)") simp
  then show ?thesis
    by (simp add: Node_WriteFile_def Node_Command_def mkdirRequest_def call_def errors_Wrapf_def)
qed

lemma WriteFile_mkdir_succeeds:
  assumes "snd (rt (issued w) (mkdirRequest n dest)) = None"
  shows "Node_WriteFile rt n dest content w =
    (snd (rt (issued w @ [mkdirRequest n dest]) (cpRequest n dest content)),
     w\<lparr>issued := issued w @ [mkdirRequest n dest, cpRequest n dest content]\<rparr>)"
proof -
  obtain ls where "rt (issued w) (mkdirRequest n dest) = (ls, None)"
    using assms by (cases "rt (issued w) (mkdirRequest n dest)") simp
  then show ?thesis
    by (simp add: Node_WriteFile_def Node_Command_def mkdirRequest_def cpRequest_def call_def
        Let_def split: prod.splits)
qed

lemma CopyTo_result:
  "Node_CopyTo rt n source dest w =
     (snd (rt (issued w) (docker_CopyTo source (name n) dest)),
      w\<lparr>issued := issued w @ [docker_CopyTo source (name n) dest]\<rparr>)"
  by (simp add: Node_CopyTo_def call_def split: prod.splits)

lemma CopyFrom_result:
  "Node_CopyFrom rt n source dest w =
     (snd (rt (issued w) (docker_CopyFrom (name n) source dest)),
      w\<lparr>issued := issued w @ [docker_CopyFrom (name n) source dest]\<rparr>)"
  by (simp add: Node_CopyFrom_def call_def split: prod.splits)

lemma ImageInspect_result:
  "Node_ImageInspect rt n i w =
     (rt (issued w) (imageInspectRequest n i), w\<lparr>issued := issued w @ [imageInspectRequest n i]\<rparr>)"
  by (simp add: Node_ImageInspect_def Node_Command_def imageInspectRequest_def call_def Let_def)

lemma LoadImageArchive_result:
  "Node_LoadImageArchive rt n img w =
     ((case snd (rt (issued w) (loadRequest n img)) of
         None \<Rightarrow> None | Some e \<Rightarrow> Some (Wrap e ''failed to load image'')),
      w\<lparr>issued := issued w @ [loadRequest n img]\<rparr>)"
  by (simp add: Node_LoadImageArchive_def Node_Command_def loadRequest_def call_def
      errors_Wrap_def Let_def split: prod.splits option.splits)

text \<open>
  Claim C5. \<open>Node_WriteFile\<close> first issues the command \<^verbatim>\<open>mkdir -p\<close> on
  \<^verbatim>\<open>filepath.Dir(dest)\<close>. When that command fails, the operation stops: no other
  request is issued, and the error of the command is returned, wrapped with the message
  \<^verbatim>\<open>failed to create directory\<close> and the path \<open>dest\<close>. Only when it succeeds is the
  second request issued: \<^verbatim>\<open>cp /dev/stdin dest\<close> with \<open>content\<close> as its standard input,
  whose error is the result.
\<close>

theorem C5_WriteFile_steps:
  "mkdirRequest n dest =
     exec_RunLoggingOutputOnFail (Cmd (name n) ''mkdir'' [''-p'', filepath_Dir dest] None) \<and>
   cpRequest n dest content = cmd_Run (Cmd (name n) ''cp'' [''/dev/stdin'', dest] (Some content)) \<and>
   (snd (rt (issued w) (mkdirRequest n dest)) = Some e \<longrightarrow>
      Node_WriteFile rt n dest content w =
        (Some (Wrapf e ''failed to create directory %s'' [AStr dest]),
         w\<lparr>issued := issued w @ [mkdirRequest n dest]\<rparr>)) \<and>
   (snd (rt (issued w) (mkdirRequest n dest)) = None \<longrightarrow>
      Node_WriteFile rt n dest content w =
        (snd (rt (issued w @ [mkdirRequest n dest]) (cpRequest n dest content)),
         w\<lparr>issued := issued w @ [mkdirRequest n dest, cpRequest n dest content]\<rparr>))"
  by (simp add: WriteFile_mkdir_fails WriteFile_mkdir_succeeds mkdirRequest_def cpRequest_def)

text \<open>Writing \<^verbatim>\<open>hello\<close> to \<^verbatim>\<open>/a/b/c.txt\<close>: the directory is \<^verbatim>\<open>/a/b\<close>; against a
  runtime that fails at once, and against one that does not fail.\<close>

theorem C5_WriteFile_steps_witness:
  "mkdirRequest node1 ''/a/b/c.txt'' =
     exec_RunLoggingOutputOnFail (Cmd ''kind-control-plane'' ''mkdir'' [''-p'', ''/a/b''] None) \<and>
   cpRequest node1 ''/a/b/c.txt'' ''hello'' =
     cmd_Run (Cmd ''kind-control-plane'' ''cp'' [''/dev/stdin'', ''/a/b/c.txt''] (Some ''hello'')) \<and>
   Node_WriteFile failScript node1 ''/a/b/c.txt'' ''hello'' emptyWorld =
     (Some (Wrapf (External ''exit status 1'') ''failed to create directory %s'' [AStr ''/a/b/c.txt'']),
      emptyWorld\<lparr>issued := [mkdirRequest node1 ''/a/b/c.txt'']\<rparr>) \<and>
   Node_WriteFile okScript node1 ''/a/b/c.txt'' ''hello'' emptyWorld =
     (None, emptyWorld\<lparr>issued := [mkdirRequest node1 ''/a/b/c.txt'',
                                     cpRequest node1 ''/a/b/c.txt'' ''hello'']\<rparr>)"
proof -
  have dir: "filepath_Dir ''/a/b/c.txt'' = ''/a/b''"
    by code_simp
  have fails: "snd (failScript (issued emptyWorld) (mkdirRequest node1 ''/a/b/c.txt'')) =
      Some (External ''exit status 1'')"
    and ok: "snd (okScript (issued emptyWorld) (mkdirRequest node1 ''/a/b/c.txt'')) = None"
    and ok': "snd (okScript (issued emptyWorld @ [mkdirRequest node1 ''/a/b/c.txt''])
      (cpRequest node1 ''/a/b/c.txt'' ''hello'')) = None"
    by (simp_all add: failScript_def okScript_def stub_script_def emptyWorld_def)
  show ?thesis
    using fails ok ok' dir
      C5_WriteFile_steps [where rt = failScript and n = node1 and w = emptyWorld
        and dest = "''/a/b/c.txt''" and content = "''hello''" and e = "External ''exit status 1''"]
      C5_WriteFile_steps [where rt = okScript and n = node1 and w = emptyWorld
        and dest = "''/a/b/c.txt''" and content = "''hello''" and e = "External ''exit status 1''"]
    by (simp add: node1_def emptyWorld_def)
qed

text \<open>For a file \<open>base\<close> in a directory given by an absolute path of plain names,
  \<^verbatim>\<open>filepath.Dir\<close> is that directory, and it is the root for a file in the root; so
  this is the directory that \<open>Node_WriteFile\<close> creates.\<close>

lemma takeWhile_element:
  assumes "CHR ''/'' \<notin> set e" and "rest = [] \<or> hd rest = CHR ''/''"
  shows "takeWhile (\<lambda>x. x \<noteq> CHR ''/'') (e @ rest) = e"
    and "dropWhile (\<lambda>x. x \<noteq> CHR ''/'') (e @ rest) = rest"
proof -
  have e: "\<forall>x \<in> set e. x \<noteq> CHR ''/''"
    using assms(1) by auto
  have "takeWhile (\<lambda>x. x \<noteq> CHR ''/'') rest = []" "dropWhile (\<lambda>x. x \<noteq> CHR ''/'') rest = rest"
    using assms(2) by (cases rest; simp)+
  with e show "takeWhile (\<lambda>x. x \<noteq> CHR ''/'') (e @ rest) = e"
    and "dropWhile (\<lambda>x. x \<noteq> CHR ''/'') (e @ rest) = rest"
    by (simp_all add: takeWhile_append2 dropWhile_append2)
qed

lemma clean_loop_element:
  assumes "plain e" and "rest = [] \<or> hd rest = CHR ''/''"
  shows "clean_loop True out 1 (e @ rest) =
    clean_loop True ((if length out \<noteq> 1 then out @ ''/'' else out) @ e) 1 rest"
proof -
  obtain c cs where e: "e = c # cs"
    using assms(1) by (cases e) (simp_all add: plain_def)
  have noslash: "CHR ''/'' \<notin> set e" "c \<noteq> CHR ''/''"
    using assms(1) e by (auto simp add: plain_def)
  have dot: "\<not> (c = CHR ''.'' \<and> (cs @ rest = [] \<or> hd (cs @ rest) = CHR ''/''))"
  proof (cases cs)
    case Nil
    with assms e show ?thesis by (auto simp add: plain_def)
  next
    case (Cons d ds)
    with noslash e show ?thesis by auto
  qed
  have dotdot: "\<not> (c = CHR ''.'' \<and> hd (cs @ rest) = CHR ''.'' \<and>
      (tl (cs @ rest) = [] \<or> hd (tl (cs @ rest)) = CHR ''/''))"
  proof (cases cs)
    case Nil
    with assms(2) dot show ?thesis by auto
  next
    case c1: (Cons d ds)
    show ?thesis
    proof (cases ds)
      case Nil
      with c1 assms e show ?thesis by (auto simp add: plain_def)
    next
      case (Cons d' ds')
      with c1 noslash e show ?thesis by auto
    qed
  qed
  have "clean_loop True out 1 (c # (cs @ rest)) =
      clean_loop True ((if length out \<noteq> 1 then out @ ''/'' else out) @
          takeWhile (\<lambda>x. x \<noteq> CHR ''/'') (c # (cs @ rest))) 1
        (dropWhile (\<lambda>x. x \<noteq> CHR ''/'') (c # (cs @ rest)))"
    by (subst clean_loop.simps(2))
      (simp only: noslash(2) dot dotdot if_False simp_thms Let_def)
  then show ?thesis
    using takeWhile_element [OF noslash(1) assms(2)] e by (simp del: clean_loop.simps)
qed

lemma clean_loop_elements:
  assumes "\<forall>e \<in> set es. plain e"
  shows "clean_loop True out 1 (concat (map (\<lambda>e. e @ ''/'') es)) =
    foldl (\<lambda>acc e. (if length acc \<noteq> 1 then acc @ ''/'' else acc) @ e) out es"
  using assms
proof (induction es arbitrary: out)
  case Nil
  show ?case by simp
next
  case (Cons e es)
  let ?out = "(if length out \<noteq> 1 then out @ ''/'' else out) @ e"
  have "clean_loop True out 1 (e @ CHR ''/'' # concat (map (\<lambda>e. e @ ''/'') es)) =
      clean_loop True ?out 1 (CHR ''/'' # concat (map (\<lambda>e. e @ ''/'') es))"
    using Cons.prems by (intro clean_loop_element) simp_all
  also have "\<dots> = clean_loop True ?out 1 (concat (map (\<lambda>e. e @ ''/'') es))"
    by simp
  also have "\<dots> = foldl (\<lambda>acc e. (if length acc \<noteq> 1 then acc @ ''/'' else acc) @ e) ?out es"
    using Cons.prems by (intro Cons.IH) simp
  finally show ?case by simp
qed

lemma foldl_elements:
  assumes "\<forall>e \<in> set es. plain e" and "acc \<noteq> []" and "length acc = 1 \<longrightarrow> acc = ''/''"
  shows "foldl (\<lambda>acc e. (if length acc \<noteq> 1 then acc @ ''/'' else acc) @ e) acc es =
    (if length acc = 1 then concat (map (\<lambda>e. CHR ''/'' # e) es) @ (if es = [] then ''/'' else [])
     else acc @ concat (map (\<lambda>e. CHR ''/'' # e) es))"
  using assms
proof (induction es arbitrary: acc)
  case Nil
  then show ?case by simp
next
  case (Cons e es)
  have e: "e \<noteq> []" using Cons.prems(1) by (simp add: plain_def)
  let ?acc = "(if length acc \<noteq> 1 then acc @ ''/'' else acc) @ e"
  have len: "length ?acc \<noteq> 1" "?acc \<noteq> []"
    using e Cons.prems(2) by (cases e; cases acc; simp)+
  have "foldl (\<lambda>acc e. (if length acc \<noteq> 1 then acc @ ''/'' else acc) @ e) ?acc es =
      ?acc @ concat (map (\<lambda>e. CHR ''/'' # e) es)"
    using Cons.IH [of ?acc] Cons.prems(1) len by simp
  then show ?case
    using Cons.prems(3) by auto
qed

lemma dropWhile_base:
  "CHR ''/'' \<notin> set base \<Longrightarrow>
   dropWhile (\<lambda>x. x \<noteq> CHR ''/'') (rev base @ CHR ''/'' # ys) = CHR ''/'' # ys"
  by (induction base rule: rev_induct) auto

lemma filepath_Dir_of_file:
  assumes "es \<noteq> []" and "\<forall>e \<in> set es. plain e" and "CHR ''/'' \<notin> set base"
  shows "filepath_Dir (concat (map (\<lambda>e. CHR ''/'' # e) es) @ CHR ''/'' # base) =
    concat (map (\<lambda>e. CHR ''/'' # e) es)"
proof -
  let ?D = "concat (map (\<lambda>e. CHR ''/'' # e) es)"
  have "dropWhile (\<lambda>x. x \<noteq> CHR ''/'') (rev (?D @ CHR ''/'' # base)) = CHR ''/'' # rev ?D"
    using dropWhile_base [OF assms(3), of "rev ?D"] by simp
  then have pre: "rev (dropWhile (\<lambda>x. x \<noteq> CHR ''/'') (rev (?D @ CHR ''/'' # base))) = ?D @ ''/''"
    by simp
  have shift: "?D @ ''/'' = CHR ''/'' # concat (map (\<lambda>e. e @ ''/'') es)"
    by (induction es) simp_all
  have out: "clean_loop True ''/'' 1 (concat (map (\<lambda>e. e @ ''/'') es)) = ?D"
    using clean_loop_elements [OF assms(2), of "''/''"] foldl_elements [OF assms(2), of "''/''"]
      assms(1)
    by (simp del: clean_loop.simps)
  have "?D \<noteq> []"
    using assms(1) by (cases es) simp_all
  then show ?thesis
    unfolding filepath_Dir_def pre shift
    using out by (simp add: filepath_Clean_def Let_def del: clean_loop.simps)
qed

lemma filepath_Dir_of_root_file:
  assumes "CHR ''/'' \<notin> set base"
  shows "filepath_Dir (CHR ''/'' # base) = ''/''"
proof -
  have "dropWhile (\<lambda>x. x \<noteq> CHR ''/'') (rev (CHR ''/'' # base)) = ''/''"
    using dropWhile_base [OF assms, of "[]"] by simp
  then show ?thesis
    by (simp add: filepath_Dir_def filepath_Clean_def)
qed

lemma WriteFile_creates_parent:
  assumes "es \<noteq> []" and "\<forall>e \<in> set es. plain e" and "CHR ''/'' \<notin> set base"
  shows "mkdirRequest n (concat (map (\<lambda>e. CHR ''/'' # e) es) @ CHR ''/'' # base) =
    exec_RunLoggingOutputOnFail
      (Cmd (name n) ''mkdir'' [''-p'', concat (map (\<lambda>e. CHR ''/'' # e) es)] None)"
  by (simp add: mkdirRequest_def filepath_Dir_of_file [OF assms])

subsection \<open>How errors are returned\<close>

text \<open>
  Claim C4, as stated, says that every error an operation returns has been wrapped with a
  description. It is false: \<open>Node_CopyTo\<close>, \<open>Node_CopyFrom\<close> and \<open>Node_ImageInspect\<close>, and
  the second step of \<open>Node_WriteFile\<close>, hand the error of the runtime back as it is.
\<close>

theorem C4_unwrapped_errors:
  "fst (Node_CopyTo failScript node1 ''/host/a'' ''/node/a'' emptyWorld) =
     Some (External ''exit status 1'') \<and>
   fst (Node_CopyFrom failScript node1 ''/node/a'' ''/host/a'' emptyWorld) =
     Some (External ''exit status 1'') \<and>
   snd (fst (Node_ImageInspect failScript node1 ''busybox'' emptyWorld)) =
     Some (External ''exit status 1'') \<and>
   fst (Node_WriteFile cpFailScript node1 ''/a/b/c.txt'' ''hello'' emptyWorld) =
     Some (External ''exit status 1'') \<and>
   \<not> described (External ''exit status 1'')"
  by (simp add: CopyTo_result CopyFrom_result ImageInspect_result WriteFile_mkdir_succeeds
      failScript_def cpFailScript_def stub_script_def emptyWorld_def)

lemma KubeVersion_error_described:
  assumes "Node_KubeVersion rt n w = ((s, Some e), w1)"
  shows "described e"
proof (cases "kubernetesVersion (cache w) = []")
  case True
  obtain lines e0 where "rt (issued w) (kubeVersionQuery n) = (lines, e0)"
    by (cases "rt (issued w) (kubeVersionQuery n)")
  with True assms show ?thesis
    by (auto simp add: KubeVersion_miss split: option.splits if_splits)
next
  case False
  with assms show ?thesis by (simp add: KubeVersion_hit)
qed

lemma IP_error_described:
  assumes "Node_IP rt n w = ((s, Some e), w1)"
  shows "described e"
proof (cases "ip (cache w) = []")
  case True
  obtain lines e0 where "rt (issued w) (ipQuery n) = (lines, e0)"
    by (cases "rt (issued w) (ipQuery n)")
  with True assms show ?thesis
    by (auto simp add: IP_miss split: option.splits if_splits)
next
  case False
  with assms show ?thesis by (simp add: IP_hit)
qed

lemma Role_error_described:
  assumes "Node_Role key rt n w = ((s, Some e), w1)"
  shows "described e"
proof (cases "role (cache w) = []")
  case True
  obtain lines e0 where "rt (issued w) (roleQuery key n) = (lines, e0)"
    by (cases "rt (issued w) (roleQuery key n)")
  with True assms show ?thesis
    by (auto simp add: Role_miss split: option.splits if_splits)
next
  case False
  with assms show ?thesis by (simp add: Role_hit)
qed

lemma Ports_error_described:
  assumes "Node_Ports rt n p w = ((hp, Some e), w1)"
  shows "described e"
proof (cases "snd (nodeCache_HostPort (cache w) p)")
  case False
  obtain lines e0 where "rt (issued w) (portQuery n p) = (lines, e0)"
    by (cases "rt (issued w) (portQuery n p)")
  with False assms show ?thesis
    by (auto simp add: Ports_miss split: option.splits if_splits)
next
  case True
  then obtain v where "nodeCache_HostPort (cache w) p = (v, True)"
    by (cases "nodeCache_HostPort (cache w) p") simp
  with assms show ?thesis by (simp add: Ports_hit)
qed

text \<open>
  Claim C4, amended. An error returned by KubeVersion, IP, Ports, Role or
  LoadImageArchive carries a description written by the handle; the error of the
  directory step of WriteFile is returned wrapped with a message and the path. CopyTo,
  CopyFrom, ImageInspect and the content step of WriteFile return the answer of the
  runtime unchanged. No error is swallowed: when the request of an operation fails, the
  operation returns an error built from that failure, with the zero result for the
  queries.
\<close>

theorem C4_error_propagation:
  "(Node_KubeVersion rt n w = ((s, Some e), w1) \<longrightarrow> described e) \<and>
   (Node_IP rt n w = ((s, Some e), w1) \<longrightarrow> described e) \<and>
   (Node_Ports rt n p w = ((hp, Some e), w1) \<longrightarrow> described e) \<and>
   (Node_Role key rt n w = ((s, Some e), w1) \<longrightarrow> described e) \<and>
   (Node_LoadImageArchive rt n img w = (Some e, w1) \<longrightarrow> described e) \<and>
   (snd (rt (issued w) (mkdirRequest n dest)) = Some e0 \<longrightarrow>
      fst (Node_WriteFile rt n dest content w) =
        Some (Wrapf e0 ''failed to create directory %s'' [AStr dest])) \<and>
   (snd (rt (issued w) (mkdirRequest n dest)) = None \<longrightarrow>
      fst (Node_WriteFile rt n dest content w) =
        snd (rt (issued w @ [mkdirRequest n dest]) (cpRequest n dest content))) \<and>
   fst (Node_CopyTo rt n source dest w) = snd (rt (issued w) (docker_CopyTo source (name n) dest)) \<and>
   fst (Node_CopyFrom rt n source dest w) =
     snd (rt (issued w) (docker_CopyFrom (name n) source dest)) \<and>
   fst (Node_ImageInspect rt n i w) = rt (issued w) (imageInspectRequest n i) \<and>
   (kubernetesVersion (cache w) = [] \<and> snd (rt (issued w) (kubeVersionQuery n)) = Some e0 \<longrightarrow>
      fst (Node_KubeVersion rt n w) = ([], Some (Wrap e0 ''failed to get file''))) \<and>
   (ip (cache w) = [] \<and> snd (rt (issued w) (ipQuery n)) = Some e0 \<longrightarrow>
      fst (Node_IP rt n w) = ([], Some (Wrap e0 ''failed to get file''))) \<and>
   (snd (nodeCache_HostPort (cache w) p) = False \<and> snd (rt (issued w) (portQuery n p)) = Some e0 \<longrightarrow>
      fst (Node_Ports rt n p w) = (- 1, Some (Wrap e0 ''failed to get file''))) \<and>
   (role (cache w) = [] \<and> snd (rt (issued w) (roleQuery key n)) = Some e0 \<longrightarrow>
      fst (Node_Role key rt n w) = ([], Some (Wrapf e0 ''failed to get %q label'' [AStr key]))) \<and>
   (snd (rt (issued w) (loadRequest n img)) = Some e0 \<longrightarrow>
      fst (Node_LoadImageArchive rt n img w) = Some (Wrap e0 ''failed to load image''))"
proof (intro conjI impI)
  show "Node_KubeVersion rt n w = ((s, Some e), w1) \<Longrightarrow> described e"
    by (rule KubeVersion_error_described)
  show "Node_IP rt n w = ((s, Some e), w1) \<Longrightarrow> described e"
    by (rule IP_error_described)
  show "Node_Ports rt n p w = ((hp, Some e), w1) \<Longrightarrow> described e"
    by (rule Ports_error_described)
  show "Node_Role key rt n w = ((s, Some e), w1) \<Longrightarrow> described e"
    by (rule Role_error_described)
  show "Node_LoadImageArchive rt n img w = (Some e, w1) \<Longrightarrow> described e"
    by (auto simp add: LoadImageArchive_result split: option.splits)
  show "snd (rt (issued w) (mkdirRequest n dest)) = Some e0 \<Longrightarrow>
      fst (Node_WriteFile rt n dest content w) =
        Some (Wrapf e0 ''failed to create directory %s'' [AStr dest])"
    by (simp add: WriteFile_mkdir_fails)
  show "snd (rt (issued w) (mkdirRequest n dest)) = None \<Longrightarrow>
      fst (Node_WriteFile rt n dest content w) =
        snd (rt (issued w @ [mkdirRequest n dest]) (cpRequest n dest content))"
    by (simp add: WriteFile_mkdir_succeeds)
  show "fst (Node_CopyTo rt n source dest w) = snd (rt (issued w) (docker_CopyTo source (name n) dest))"
    by (simp add: CopyTo_result)
  show "fst (Node_CopyFrom rt n source dest w) =
     snd (rt (issued w) (docker_CopyFrom (name n) source dest))"
    by (simp add: CopyFrom_result)
  show "fst (Node_ImageInspect rt n i w) = rt (issued w) (imageInspectRequest n i)"
    by (simp add: ImageInspect_result)
  show "kubernetesVersion (cache w) = [] \<and> snd (rt (issued w) (kubeVersionQuery n)) = Some e0 \<Longrightarrow>
      fst (Node_KubeVersion rt n w) = ([], Some (Wrap e0 ''failed to get file''))"
    by (cases "rt (issued w) (kubeVersionQuery n)") (simp add: KubeVersion_miss)
  show "ip (cache w) = [] \<and> snd (rt (issued w) (ipQuery n)) = Some e0 \<Longrightarrow>
      fst (Node_IP rt n w) = ([], Some (Wrap e0 ''failed to get file''))"
    by (cases "rt (issued w) (ipQuery n)") (simp add: IP_miss)
  show "snd (nodeCache_HostPort (cache w) p) = False \<and> snd (rt (issued w) (portQuery n p)) = Some e0 \<Longrightarrow>
      fst (Node_Ports rt n p w) = (- 1, Some (Wrap e0 ''failed to get file''))"
    by (cases "rt (issued w) (portQuery n p)") (simp add: Ports_miss)
  show "role (cache w) = [] \<and> snd (rt (issued w) (roleQuery key n)) = Some e0 \<Longrightarrow>
      fst (Node_Role key rt n w) = ([], Some (Wrapf e0 ''failed to get %q label'' [AStr key]))"
    by (cases "rt (issued w) (roleQuery key n)") (simp add: Role_miss)
  show "snd (rt (issued w) (loadRequest n img)) = Some e0 \<Longrightarrow>
      fst (Node_LoadImageArchive rt n img w) = Some (Wrap e0 ''failed to load image'')"
    by (simp add: LoadImageArchive_result)
qed

theorem C4_error_propagation_witness:
  "fst (Node_KubeVersion failScript node1 emptyWorld) =
     ([], Some (Wrap (External ''exit status 1'') ''failed to get file'')) \<and>
   fst (Node_Role ''io.k8s.sigs.kind.role'' failScript node1 emptyWorld) =
     ([], Some (Wrapf (External ''exit status 1'') ''failed to get %q label''
                  [AStr ''io.k8s.sigs.kind.role''])) \<and>
   fst (Node_WriteFile failScript node1 ''/a/b/c.txt'' ''hello'' emptyWorld) =
     Some (Wrapf (External ''exit status 1'') ''failed to create directory %s'' [AStr ''/a/b/c.txt'']) \<and>
   fst (Node_LoadImageArchive failScript node1 ''tar'' emptyWorld) =
     Some (Wrap (External ''exit status 1'') ''failed to load image'') \<and>
   fst (Node_CopyTo failScript node1 ''/host/a'' ''/a/b/c.txt'' emptyWorld) =
     Some (External ''exit status 1'')"
proof -
  have mk: "snd (failScript (issued emptyWorld) (mkdirRequest node1 ''/a/b/c.txt'')) =
      Some (External ''exit status 1'')"
    and kv: "kubernetesVersion (cache emptyWorld) = [] \<and>
      snd (failScript (issued emptyWorld) (kubeVersionQuery node1)) = Some (External ''exit status 1'')"
    and ro: "role (cache emptyWorld) = [] \<and>
      snd (failScript (issued emptyWorld) (roleQuery ''io.k8s.sigs.kind.role'' node1)) =
        Some (External ''exit status 1'')"
    and ld: "snd (failScript (issued emptyWorld) (loadRequest node1 ''tar'')) =
      Some (External ''exit status 1'')"
    and cp: "snd (failScript (issued emptyWorld)
      (docker_CopyTo ''/host/a'' (name node1) ''/a/b/c.txt'')) = Some (External ''exit status 1'')"
    by (simp_all add: failScript_def stub_script_def emptyWorld_def)
  show ?thesis
    using mk kv ro ld cp
      C4_error_propagation [where rt = failScript and n = node1 and w = emptyWorld
        and key = "''io.k8s.sigs.kind.role''" and img = "''tar''" and dest = "''/a/b/c.txt''"
        and ?e0.0 = "External ''exit status 1''" and content = "''hello''"
        and source = "''/host/a''" and s = "[]" and e = "External ''exit status 1''"
        and ?w1.0 = emptyWorld and p = 0 and hp = 0 and i = "[]"]
    by simp
qed

subsection \<open>Parsing the host port\<close>

text \<open>On a text of digits the loop of \<^verbatim>\<open>ParseUint\<close> computes the decimal value, until
  the value passes the largest 32-bit number; a character that is not a digit makes it
  fail.\<close>

lemma digits_foldl_mono:
  "\<forall>c \<in> set cs. isDigit c \<Longrightarrow> 0 \<le> n \<Longrightarrow>
   (n::int) \<le> foldl (\<lambda>a c. a * 10 + (of_char c - 48)) n cs"
proof (induction cs arbitrary: n)
  case Nil
  show ?case by simp
next
  case (Cons c cs)
  have d: "0 \<le> (of_char c :: int) - 48"
    using Cons.prems(1) by (simp add: isDigit_def)
  have "n \<le> n * 10 + (of_char c - 48)"
    using d Cons.prems(2) by simp
  also have "\<dots> \<le> foldl (\<lambda>a c. a * 10 + (of_char c - 48)) (n * 10 + (of_char c - 48)) cs"
    using Cons.prems d by (intro Cons.IH) simp_all
  finally show ?case by simp
qed

lemma parseUint_loop_digits:
  assumes "\<forall>c \<in> set cs. isDigit c" and "0 \<le> n" and "n \<le> 4294967295"
  shows "parseUint_loop 4294967295 n cs =
    (if foldl (\<lambda>a c. a * 10 + (of_char c - 48)) n cs \<le> 4294967295
     then (foldl (\<lambda>a c. a * 10 + (of_char c - 48)) n cs, None)
     else (4294967295, Some ErrRange))"
  using assms
proof (induction cs arbitrary: n)
  case Nil
  then show ?case by simp
next
  case (Cons c cs)
  let ?d = "(of_char c :: int) - 48"
  let ?n1 = "n * 10 + ?d"
  have dig: "48 \<le> (of_char c :: int)" "(of_char c :: int) \<le> 57"
    using Cons.prems(1) by (simp_all add: isDigit_def)
  have bounds: "0 \<le> n * 10" "n * 10 < 2 ^ 64" "0 \<le> ?n1" "?n1 < 2 ^ 64"
    using Cons.prems(2,3) dig by simp_all
  have m1: "(n * 10) mod 2 ^ 64 = n * 10"
    using bounds by (simp only: mod_pos_pos_trivial)
  have m2: "(n * 10 + ?d) mod 2 ^ 64 = ?n1"
    using bounds by (simp only: mod_pos_pos_trivial)
  have cut: "\<not> n \<ge> (2 ^ 64 - 1) div 10 + 1"
    using Cons.prems(3) by simp
  have nolt: "\<not> ?n1 < n * 10"
    using dig by simp
  show ?case
  proof (cases "?n1 > 4294967295")
    case True
    have "?n1 \<le> foldl (\<lambda>a c. a * 10 + (of_char c - 48)) ?n1 cs"
      using Cons.prems(1) bounds by (intro digits_foldl_mono) simp_all
    with True have big: "\<not> foldl (\<lambda>a c. a * 10 + (of_char c - 48)) ?n1 cs \<le> 4294967295"
      by linarith
    have "parseUint_loop 4294967295 n (c # cs) = (4294967295, Some ErrRange)"
      using dig cut m1 m2 nolt True
      by (simp add: Let_def del: of_char_eq_iff)
    then show ?thesis using big by simp
  next
    case False
    have step: "parseUint_loop 4294967295 n (c # cs) = parseUint_loop 4294967295 ?n1 cs"
      using dig cut m1 m2 nolt False
      by (simp add: Let_def)
    have "parseUint_loop 4294967295 ?n1 cs =
      (if foldl (\<lambda>a c. a * 10 + (of_char c - 48)) ?n1 cs \<le> 4294967295
       then (foldl (\<lambda>a c. a * 10 + (of_char c - 48)) ?n1 cs, None)
       else (4294967295, Some ErrRange))"
      using Cons.prems(1) bounds False by (intro Cons.IH) simp_all
    with step show ?thesis by simp
  qed
qed

lemma parseUint_loop_nondigit:
  "\<exists>c \<in> set cs. \<not> isDigit c \<Longrightarrow> snd (parseUint_loop m n cs) \<noteq> None"
  by (induction cs arbitrary: n) (auto simp add: Let_def isDigit_def)

lemma ParseUint_digits:
  assumes "ds \<noteq> []" and "\<forall>c \<in> set ds. isDigit c"
  shows "strconv_ParseUint ds 32 =
    (if decimal ds \<le> 4294967295 then (decimal ds, None) else (4294967295, Some ErrRange))"
  using assms parseUint_loop_digits [of ds 0]
  by (simp add: strconv_ParseUint_def decimal_def)

lemma digit_not_sign: "isDigit c \<Longrightarrow> c \<noteq> CHR ''+'' \<and> c \<noteq> CHR ''-''"
  by (auto simp add: isDigit_def)

lemma ParseInt_unsigned:
  assumes "ds \<noteq> []" and "\<forall>c \<in> set ds. isDigit c"
  shows "strconv_ParseInt ds 32 =
    (if decimal ds \<le> 2147483647 then (decimal ds, None)
     else (2147483647, Some (NumError ''ParseInt'' ds ErrRange)))"
proof -
  have "isDigit (hd ds)" using assms by simp
  then have "hd ds \<noteq> CHR ''+''" "hd ds \<noteq> CHR ''-''"
    using digit_not_sign by blast+
  then show ?thesis
    using assms by (simp add: strconv_ParseInt_def ParseUint_digits Let_def)
qed

lemma ParseInt_plus:
  assumes "ds \<noteq> []" and "\<forall>c \<in> set ds. isDigit c"
  shows "strconv_ParseInt (CHR ''+'' # ds) 32 =
    (if decimal ds \<le> 2147483647 then (decimal ds, None)
     else (2147483647, Some (NumError ''ParseInt'' (CHR ''+'' # ds) ErrRange)))"
  using assms by (simp add: strconv_ParseInt_def ParseUint_digits Let_def)

lemma ParseInt_minus:
  assumes "ds \<noteq> []" and "\<forall>c \<in> set ds. isDigit c"
  shows "strconv_ParseInt (CHR ''-'' # ds) 32 =
    (if decimal ds \<le> 2147483648 then (- decimal ds, None)
     else (- 2147483648, Some (NumError ''ParseInt'' (CHR ''-'' # ds) ErrRange)))"
  using assms by (simp add: strconv_ParseInt_def ParseUint_digits Let_def)

lemma ParseInt_error_kind:
  "snd (strconv_ParseInt l 32) = Some e \<Longrightarrow> \<exists>k. e = NumError ''ParseInt'' l k"
  by (auto simp add: strconv_ParseInt_def Let_def split: if_splits prod.splits)

lemma parseUint_loop_range:
  "parseUint_loop m n cs = (un, Some k) \<Longrightarrow> k = ErrSyntax \<or> un = m"
  by (induction cs arbitrary: n) (auto simp add: Let_def split: if_splits)

lemma ParseInt_not_numeral:
  assumes "\<not> numeralText l"
  shows "snd (strconv_ParseInt l 32) \<noteq> None"
proof (cases "l = []")
  case True
  then show ?thesis by (simp add: strconv_ParseInt_def)
next
  case False
  define ds where "ds = (if hd l = CHR ''+'' \<or> hd l = CHR ''-'' then tl l else l)"
  have bad: "ds = [] \<or> (\<exists>c \<in> set ds. \<not> isDigit c)"
    using assms False by (auto simp add: numeralText_def Let_def ds_def split: if_splits)
  have "snd (strconv_ParseUint ds 32) \<noteq> None"
    using bad parseUint_loop_nondigit [of ds 4294967295 0]
    by (auto simp add: strconv_ParseUint_def)
  then obtain un k where u: "strconv_ParseUint ds 32 = (un, Some k)"
    by (cases "strconv_ParseUint ds 32") auto
  have rng: "k = ErrSyntax \<or> un = 4294967295"
    using u parseUint_loop_range [of 4294967295 0 ds un k]
    by (auto simp add: strconv_ParseUint_def split: if_splits)
  show ?thesis
    using False u rng
    by (auto simp add: strconv_ParseInt_def Let_def ds_def [symmetric])
qed

lemma decimal_nonneg: "\<forall>c \<in> set ds. isDigit c \<Longrightarrow> 0 \<le> decimal ds"
  using digits_foldl_mono [of ds 0] by (simp add: decimal_def)

lemma sint_int32: "- 2147483648 \<le> x \<Longrightarrow> x \<le> 2147483647 \<Longrightarrow> sint (word_of_int x :: int32) = x"
  by (simp add: sint_sbintrunc' signed_take_bit_int_eq_self)

text \<open>
  Claim C10. \<open>Node_Ports\<close> reads the line as a decimal numeral of 32 bits with a sign.
  When the line is a well-formed numeral (digits, with a sign or without) whose value is
  above 2147483647 or below -2147483648, the operation returns the port -1 and the range
  error of \<^verbatim>\<open>ParseInt\<close>, wrapped, and the cache is left as it was: no truncated port
  is returned or stored. A line of digits whose value is at most 2147483647 is accepted,
  and the port returned, read as a signed number, is that value.
\<close>

theorem C10_Ports_rejects_out_of_range:
  "(ds \<noteq> [] \<and> (\<forall>c \<in> set ds. isDigit c) \<and>
    snd (nodeCache_HostPort (cache w) p) = False \<and>
    rt (issued w) (portQuery n p) = ([l], None) \<and>
    (l = ds \<and> decimal ds > 2147483647 \<or>
     l = CHR ''+'' # ds \<and> decimal ds > 2147483647 \<or>
     l = CHR ''-'' # ds \<and> decimal ds > 2147483648) \<longrightarrow>
      Node_Ports rt n p w =
        ((- 1, Some (Wrap (NumError ''ParseInt'' l ErrRange) ''failed to get file'')),
         w\<lparr>issued := issued w @ [portQuery n p]\<rparr>)) \<and>
   (ds \<noteq> [] \<and> (\<forall>c \<in> set ds. isDigit c) \<and>
    snd (nodeCache_HostPort (cache w) p) = False \<and>
    rt (issued w) (portQuery n p) = ([ds], None) \<and> decimal ds \<le> 2147483647 \<longrightarrow>
      fst (Node_Ports rt n p w) = (word_of_int (decimal ds), None) \<and>
      sint (word_of_int (decimal ds) :: int32) = decimal ds)"
proof (intro conjI impI)
  assume a: "ds \<noteq> [] \<and> (\<forall>c \<in> set ds. isDigit c) \<and>
    snd (nodeCache_HostPort (cache w) p) = False \<and>
    rt (issued w) (portQuery n p) = ([l], None) \<and>
    (l = ds \<and> decimal ds > 2147483647 \<or>
     l = CHR ''+'' # ds \<and> decimal ds > 2147483647 \<or>
     l = CHR ''-'' # ds \<and> decimal ds > 2147483648)"
  then have "snd (strconv_ParseInt l 32) = Some (NumError ''ParseInt'' l ErrRange)"
    by (auto simp add: ParseInt_unsigned ParseInt_plus ParseInt_minus)
  with a show "Node_Ports rt n p w =
        ((- 1, Some (Wrap (NumError ''ParseInt'' l ErrRange) ''failed to get file'')),
         w\<lparr>issued := issued w @ [portQuery n p]\<rparr>)"
    by (simp add: Ports_miss)
next
  assume a: "ds \<noteq> [] \<and> (\<forall>c \<in> set ds. isDigit c) \<and>
    snd (nodeCache_HostPort (cache w) p) = False \<and>
    rt (issued w) (portQuery n p) = ([ds], None) \<and> decimal ds \<le> 2147483647"
  then have "strconv_ParseInt ds 32 = (decimal ds, None)"
    by (simp add: ParseInt_unsigned)
  with a show "fst (Node_Ports rt n p w) = (word_of_int (decimal ds), None)"
    by (simp add: Ports_miss)
  show "sint (word_of_int (decimal ds) :: int32) = decimal ds"
    using a decimal_nonneg [of ds] by (intro sint_int32) simp_all
qed

text \<open>The line \<^verbatim>\<open>3000000000\<close>.\<close>

theorem C10_Ports_rejects_out_of_range_witness:
  "decimal ''3000000000'' = 3000000000 \<and>
   Node_Ports rangeScript node1 6443 emptyWorld =
     ((- 1, Some (Wrap (NumError ''ParseInt'' ''3000000000'' ErrRange) ''failed to get file'')),
      emptyWorld\<lparr>issued := [portQuery node1 6443]\<rparr>) \<and>
   cache (emptyWorld\<lparr>issued := [portQuery node1 6443]\<rparr>) = cache emptyWorld"
proof -
  have d: "decimal ''3000000000'' = 3000000000"
    by (simp add: decimal_def)
  have hyp: "''3000000000'' \<noteq> [] \<and> (\<forall>c \<in> set ''3000000000''. isDigit c) \<and>
    snd (nodeCache_HostPort (cache emptyWorld) 6443) = False \<and>
    rangeScript (issued emptyWorld) (portQuery node1 6443) = ([''3000000000''], None) \<and>
    (''3000000000'' = ''3000000000'' \<and> decimal ''3000000000'' > 2147483647 \<or>
     ''3000000000'' = CHR ''+'' # ''3000000000'' \<and> decimal ''3000000000'' > 2147483647 \<or>
     ''3000000000'' = CHR ''-'' # ''3000000000'' \<and> decimal ''3000000000'' > 2147483648)"
    by (simp add: d isDigit_def nodeCache_HostPort_def emptyWorld_def rangeScript_def
        stub_script_def)
  show ?thesis
    using d hyp
      C10_Ports_rejects_out_of_range [where ds = "''3000000000''" and l = "''3000000000''"
        and w = emptyWorld and p = 6443 and rt = rangeScript and n = node1]
    by (simp add: emptyWorld_def)
qed

text \<open>
  Claim C6. Whenever \<open>Node_Ports\<close> returns an error, the host port it returns is -1. It
  returns an error, with the port -1, when the runtime fails, when the answer does not
  have exactly one line, and when the line is not a decimal numeral. When the answer is
  the one line \<^verbatim>\<open>32769\<close> it returns the port 32769 and a nil error.
\<close>

theorem C6_Ports_sentinel:
  "(Node_Ports rt n p w = ((hp, Some e), w1) \<longrightarrow> hp = - 1 \<and> sint hp = - 1) \<and>
   (snd (nodeCache_HostPort (cache w) p) = False \<and>
    snd (rt (issued w) (portQuery n p)) = Some e0 \<longrightarrow>
      fst (Node_Ports rt n p w) = (- 1, Some (Wrap e0 ''failed to get file''))) \<and>
   (snd (nodeCache_HostPort (cache w) p) = False \<and>
    rt (issued w) (portQuery n p) = (lines, None) \<and> length lines \<noteq> 1 \<longrightarrow>
      fst (Node_Ports rt n p w) =
        (- 1, Some (Errorf ''file should only be one line, got %d lines''
                      [AInt (int (length lines))]))) \<and>
   (snd (nodeCache_HostPort (cache w) p) = False \<and>
    rt (issued w) (portQuery n p) = ([l], None) \<and> \<not> numeralText l \<longrightarrow>
      (\<exists>k. fst (Node_Ports rt n p w) =
         (- 1, Some (Wrap (NumError ''ParseInt'' l k) ''failed to get file'')))) \<and>
   (snd (nodeCache_HostPort (cache w) p) = False \<and>
    rt (issued w) (portQuery n p) = ([''32769''], None) \<longrightarrow>
      fst (Node_Ports rt n p w) = (32769, None))"
proof (intro conjI impI)
  assume "Node_Ports rt n p w = ((hp, Some e), w1)"
  then have "hp = - 1"
    using Ports_outcome [of rt n p w hp "Some e" w1] by simp
  then show "hp = - 1" "sint hp = - 1" by simp_all
next
  assume "snd (nodeCache_HostPort (cache w) p) = False \<and>
    snd (rt (issued w) (portQuery n p)) = Some e0"
  then show "fst (Node_Ports rt n p w) = (- 1, Some (Wrap e0 ''failed to get file''))"
    by (cases "rt (issued w) (portQuery n p)") (simp add: Ports_miss)
next
  assume "snd (nodeCache_HostPort (cache w) p) = False \<and>
    rt (issued w) (portQuery n p) = (lines, None) \<and> length lines \<noteq> 1"
  then show "fst (Node_Ports rt n p w) =
        (- 1, Some (Errorf ''file should only be one line, got %d lines''
                      [AInt (int (length lines))]))"
    by (simp add: Ports_miss)
next
  assume a: "snd (nodeCache_HostPort (cache w) p) = False \<and>
    rt (issued w) (portQuery n p) = ([l], None) \<and> \<not> numeralText l"
  then obtain e' where e': "snd (strconv_ParseInt l 32) = Some e'"
    using ParseInt_not_numeral [of l] by auto
  then obtain k where "e' = NumError ''ParseInt'' l k"
    using ParseInt_error_kind by blast
  with a e' show "\<exists>k. fst (Node_Ports rt n p w) =
         (- 1, Some (Wrap (NumError ''ParseInt'' l k) ''failed to get file''))"
    by (simp add: Ports_miss)
next
  assume a: "snd (nodeCache_HostPort (cache w) p) = False \<and>
    rt (issued w) (portQuery n p) = ([''32769''], None)"
  have "strconv_ParseInt ''32769'' 32 = (32769, None)"
    by (simp add: strconv_ParseInt_def strconv_ParseUint_def)
  with a show "fst (Node_Ports rt n p w) = (32769, None)"
    by (simp add: Ports_miss)
qed

text \<open>A fresh handle and the port 6443, against runtimes that answer \<^verbatim>\<open>32769\<close>,
  \<^verbatim>\<open>not-a-number\<close>, a failure, and no line.\<close>

theorem C6_Ports_sentinel_witness:
  "fst (Node_Ports portScript node1 6443 emptyWorld) = (32769, None) \<and>
   fst (Node_Ports wordScript node1 6443 emptyWorld) =
     (- 1, Some (Wrap (NumError ''ParseInt'' ''not-a-number'' ErrSyntax) ''failed to get file'')) \<and>
   fst (Node_Ports failScript node1 6443 emptyWorld) =
     (- 1, Some (Wrap (External ''exit status 1'') ''failed to get file'')) \<and>
   fst (Node_Ports okScript node1 6443 emptyWorld) =
     (- 1, Some (Errorf ''file should only be one line, got %d lines'' [AInt 0])) \<and>
   sint (- 1 :: int32) = - 1"
proof -
  have miss: "snd (nodeCache_HostPort (cache emptyWorld) 6443) = False"
    by (simp add: nodeCache_HostPort_def emptyWorld_def)
  have answers:
    "portScript (issued emptyWorld) (portQuery node1 6443) = ([''32769''], None)"
    "wordScript (issued emptyWorld) (portQuery node1 6443) = ([''not-a-number''], None)"
    "snd (failScript (issued emptyWorld) (portQuery node1 6443)) = Some (External ''exit status 1'')"
    "okScript (issued emptyWorld) (portQuery node1 6443) = ([], None)"
    by (simp_all add: portScript_def wordScript_def failScript_def okScript_def stub_script_def
        emptyWorld_def)
  have syn: "strconv_ParseInt ''not-a-number'' 32 =
      (0, Some (NumError ''ParseInt'' ''not-a-number'' ErrSyntax))"
    by (simp add: strconv_ParseInt_def strconv_ParseUint_def)
  have word: "fst (Node_Ports wordScript node1 6443 emptyWorld) =
     (- 1, Some (Wrap (NumError ''ParseInt'' ''not-a-number'' ErrSyntax) ''failed to get file''))"
    using miss answers(2) syn by (simp add: Ports_miss)
  show ?thesis
    using miss answers word
      C6_Ports_sentinel [where rt = portScript and n = node1 and p = 6443 and w = emptyWorld
        and hp = "- 1" and e = "External []" and ?w1.0 = emptyWorld and ?e0.0 = "External []"
        and lines = "[]" and l = "[]"]
      C6_Ports_sentinel [where rt = failScript and n = node1 and p = 6443 and w = emptyWorld
        and hp = "- 1" and e = "External []" and ?w1.0 = emptyWorld
        and ?e0.0 = "External ''exit status 1''" and lines = "[]" and l = "[]"]
      C6_Ports_sentinel [where rt = okScript and n = node1 and p = 6443 and w = emptyWorld
        and hp = "- 1" and e = "External []" and ?w1.0 = emptyWorld and ?e0.0 = "External []"
        and lines = "[]" and l = "[]"]
    by simp
qed

subsection \<open>Proxy settings\<close>

lemma proxy_loop_Envs:
  "Envs (proxy_loop env names d) nm =
     (if nm \<in> set names \<and> os_Getenv env nm \<noteq> [] then Some (os_Getenv env nm)
      else if nm \<in> set names \<and> os_Getenv env (strings_ToLower nm) \<noteq> []
        then Some (os_Getenv env (strings_ToLower nm))
      else Envs d nm)"
  by (induction names arbitrary: d) (auto simp add: Let_def)

lemma ToLower_proxyEnvs:
  "map strings_ToLower proxyEnvs = [''http_proxy'', ''https_proxy'', ''no_proxy'']"
  by code_simp

text \<open>
  Claim C8. \<open>getProxyDetails\<close> is a function of the environment alone. For each of the
  names \<^verbatim>\<open>HTTP_PROXY\<close>, \<^verbatim>\<open>HTTPS_PROXY\<close> and \<^verbatim>\<open>NO_PROXY\<close>, the result maps the name
  to the value of the variable of that name when it is not empty, otherwise to the value
  of the variable of the lower-case name when that is not empty, and has no entry for the
  name when both are empty or not set. The result has no other entries.
\<close>

theorem C8_getProxyDetails:
  "(\<forall>nm \<in> set proxyEnvs.
      Envs (getProxyDetails env) nm =
        (if os_Getenv env nm \<noteq> [] then Some (os_Getenv env nm)
         else if os_Getenv env (strings_ToLower nm) \<noteq> []
           then Some (os_Getenv env (strings_ToLower nm))
         else None)) \<and>
   dom (Envs (getProxyDetails env)) \<subseteq> set proxyEnvs \<and>
   set proxyEnvs = {''HTTP_PROXY'', ''HTTPS_PROXY'', ''NO_PROXY''} \<and>
   map strings_ToLower proxyEnvs = [''http_proxy'', ''https_proxy'', ''no_proxy'']"
proof (intro conjI ballI)
  fix nm
  assume "nm \<in> set proxyEnvs"
  then show "Envs (getProxyDetails env) nm =
        (if os_Getenv env nm \<noteq> [] then Some (os_Getenv env nm)
         else if os_Getenv env (strings_ToLower nm) \<noteq> []
           then Some (os_Getenv env (strings_ToLower nm))
         else None)"
    by (simp add: getProxyDetails_def proxy_loop_Envs)
next
  show "dom (Envs (getProxyDetails env)) \<subseteq> set proxyEnvs"
    by (auto simp add: getProxyDetails_def proxy_loop_Envs split: if_splits)
next
  show "set proxyEnvs = {''HTTP_PROXY'', ''HTTPS_PROXY'', ''NO_PROXY''}"
    by (simp add: proxyEnvs_def)
next
  show "map strings_ToLower proxyEnvs = [''http_proxy'', ''https_proxy'', ''no_proxy'']"
    by (rule ToLower_proxyEnvs)
qed

text \<open>The upper-case variable empty and the lower-case one set; both set.\<close>

theorem C8_getProxyDetails_witness:
  "Envs (getProxyDetails env1) ''HTTP_PROXY'' = Some ''http://x'' \<and>
   Envs (getProxyDetails env2) ''HTTP_PROXY'' = Some ''http://y'' \<and>
   Envs (getProxyDetails env1) ''HTTPS_PROXY'' = None \<and>
   dom (Envs (getProxyDetails env1)) = {''HTTP_PROXY''}"
proof -
  have low: "strings_ToLower ''HTTP_PROXY'' = ''http_proxy''"
    "strings_ToLower ''HTTPS_PROXY'' = ''https_proxy''"
    "strings_ToLower ''NO_PROXY'' = ''no_proxy''"
    by code_simp+
  have mem: "''HTTP_PROXY'' \<in> set proxyEnvs" "''HTTPS_PROXY'' \<in> set proxyEnvs"
    "''NO_PROXY'' \<in> set proxyEnvs"
    by (simp_all add: proxyEnvs_def)
  have a: "Envs (getProxyDetails env1) ''HTTP_PROXY'' = Some ''http://x''"
    using C8_getProxyDetails [of env1] mem low by (simp add: env1_def os_Getenv_def)
  have b: "Envs (getProxyDetails env2) ''HTTP_PROXY'' = Some ''http://y''"
    using C8_getProxyDetails [of env2] mem low by (simp add: env2_def os_Getenv_def)
  have c: "Envs (getProxyDetails env1) ''HTTPS_PROXY'' = None"
    using C8_getProxyDetails [of env1] mem low by (simp add: env1_def os_Getenv_def)
  have d: "Envs (getProxyDetails env1) ''NO_PROXY'' = None"
    using C8_getProxyDetails [of env1] mem low by (simp add: env1_def os_Getenv_def)
  have "dom (Envs (getProxyDetails env1)) \<subseteq> {''HTTP_PROXY'', ''HTTPS_PROXY'', ''NO_PROXY''}"
    using C8_getProxyDetails [of env1] by (elim conjE) (simp only:)
  with a c d have "dom (Envs (getProxyDetails env1)) = {''HTTP_PROXY''}"
    by (auto simp add: dom_def)
  with a b c show ?thesis by simp
qed

end
